theory Spec2Isabelle
  imports Main
begin

section \<open>JavaScript strings and the regular expressions of the source\<close>

text \<open>
  A JavaScript string is a sequence of UTF-16 code units; a code unit is modelled by its
  number. \<open>str\<close> turns an ASCII literal into such a sequence.
\<close>

type_synonym jsstring = "nat list"

definition str :: "string \<Rightarrow> jsstring" where
  "str s = map of_char s"

text \<open>
  The character classes of the regular expressions, as ECMAScript defines them for a
  pattern without the \<open>u\<close> flag: \<open>\s\<close> is WhiteSpace or LineTerminator (the set that
  \<open>trim\<close> strips as well), \<open>\w\<close> is \<open>[A-Za-z0-9_]\<close>, \<open>.\<close> is anything but a
  LineTerminator, \<open>[\s\S]\<close> is anything.
\<close>

definition isLineTerminator :: "nat \<Rightarrow> bool" where
  "isLineTerminator c = (c = 10 \<or> c = 13 \<or> c = 8232 \<or> c = 8233)"

definition isWhiteSpace :: "nat \<Rightarrow> bool" where
  "isWhiteSpace c =
     (c = 9 \<or> c = 11 \<or> c = 12 \<or> c = 32 \<or> c = 160 \<or> c = 5760 \<or> (8192 \<le> c \<and> c \<le> 8202)
      \<or> c = 8239 \<or> c = 8287 \<or> c = 12288 \<or> c = 65279 \<or> isLineTerminator c)"

definition isWordChar :: "nat \<Rightarrow> bool" where
  "isWordChar c = ((48 \<le> c \<and> c \<le> 57) \<or> (65 \<le> c \<and> c \<le> 90) \<or> c = 95 \<or> (97 \<le> c \<and> c \<le> 122))"

definition notLineTerminator :: "nat \<Rightarrow> bool" where
  "notLineTerminator c = (\<not> isLineTerminator c)"

definition anyChar :: "nat \<Rightarrow> bool" where
  "anyChar c = True"

text \<open>
  Flag \<open>i\<close>: two code units match when their canonical forms agree. Every literal of the
  patterns below is ASCII, and without the \<open>u\<close> flag a code unit from 128 on never
  canonicalises to an ASCII one, so folding \<open>a\<close>..\<open>z\<close> to upper case is all that matters.
\<close>

definition canonicalize :: "nat \<Rightarrow> nat" where
  "canonicalize c = (if 97 \<le> c \<and> c \<le> 122 then c - 32 else c)"

definition startsWith :: "jsstring \<Rightarrow> jsstring \<Rightarrow> bool" where
  "startsWith s l = (take (length l) s = l)"

definition startsWithI :: "jsstring \<Rightarrow> jsstring \<Rightarrow> bool" where
  "startsWithI s l = (map canonicalize (take (length l) s) = map canonicalize l)"

text \<open>
  The pieces a pattern of the source is made of. A pattern is a list of such pieces,
  matched one after the other.
\<close>

datatype ritem =
    Lit jsstring              \<comment> \<open>literal text\<close>
  | LitI jsstring             \<comment> \<open>literal text under flag \<open>i\<close>\<close>
  | Plus "nat \<Rightarrow> bool"       \<comment> \<open>\<open>c+\<close>, greedy\<close>
  | Star "nat \<Rightarrow> bool"       \<comment> \<open>\<open>c*\<close>, greedy\<close>
  | LazyStar "nat \<Rightarrow> bool"   \<comment> \<open>\<open>c*?\<close>, lazy\<close>
  | Opt "nat \<Rightarrow> bool"        \<comment> \<open>\<open>c?\<close>, greedy\<close>
  | NotAheadI jsstring        \<comment> \<open>\<open>(?!text)\<close> under flag \<open>i\<close>\<close>
  | EndOfLine                 \<comment> \<open>\<open>$\<close> under flag \<open>m\<close>\<close>

text \<open>
  \<open>choices i s\<close>: how many code units piece \<open>i\<close> may consume at the head of \<open>s\<close>, in the
  order in which the backtracking matcher tries them (greedy: longest first; lazy:
  shortest first; an assertion consumes nothing or fails).
\<close>

fun choices :: "ritem \<Rightarrow> jsstring \<Rightarrow> nat list" where
  "choices (Lit l) s = (if startsWith s l then [length l] else [])"
| "choices (LitI l) s = (if startsWithI s l then [length l] else [])"
| "choices (Plus c) s = rev [1 ..< Suc (length (takeWhile c s))]"
| "choices (Star c) s = rev [0 ..< Suc (length (takeWhile c s))]"
| "choices (LazyStar c) s = [0 ..< Suc (length (takeWhile c s))]"
| "choices (Opt c) s = (case s of [] \<Rightarrow> [0] | x # _ \<Rightarrow> if c x then [1, 0] else [0])"
| "choices (NotAheadI l) s = (if startsWithI s l then [] else [0])"
| "choices EndOfLine s = (case s of [] \<Rightarrow> [0] | x # _ \<Rightarrow> if isLineTerminator x then [0] else [])"

fun first_some :: "('a \<Rightarrow> 'b option) \<Rightarrow> 'a list \<Rightarrow> 'b option" where
  "first_some f [] = None"
| "first_some f (k # ks) = (case f k of Some y \<Rightarrow> Some y | None \<Rightarrow> first_some f ks)"

text \<open>
  \<open>rmatch re s\<close> matches the pattern at the head of \<open>s\<close>: the text each piece consumed
  and the rest of the input, for the first alternative that lets the whole pattern
  match; \<open>None\<close> when there is none.
\<close>

primrec rmatch :: "ritem list \<Rightarrow> jsstring \<Rightarrow> (jsstring list \<times> jsstring) option" where
  "rmatch [] = (\<lambda>s. Some ([], s))"
| "rmatch (i # re) = (\<lambda>s.
     first_some
       (\<lambda>k. case rmatch re (drop k s) of
              None \<Rightarrow> None
            | Some (ps, rest) \<Rightarrow> Some (take k s # ps, rest))
       (choices i s))"

text \<open>
  \<open>String.prototype.replace\<close> with a global pattern: scan from the left; where the
  pattern matches, put the replacement (computed from the consumed pieces) and go on
  after the match; elsewhere copy one code unit. After an empty match one code unit is
  copied.
\<close>

function replace_all :: "ritem list \<Rightarrow> (jsstring list \<Rightarrow> jsstring) \<Rightarrow> jsstring \<Rightarrow> jsstring" where
  "replace_all re f s =
     (case rmatch re s of
        None \<Rightarrow> (case s of [] \<Rightarrow> [] | c # cs \<Rightarrow> c # replace_all re f cs)
      | Some (ps, rest) \<Rightarrow>
          if length rest < length s then f ps @ replace_all re f rest
          else f ps @ (case s of [] \<Rightarrow> [] | c # cs \<Rightarrow> c # replace_all re f cs))"
  by pat_completeness auto
termination
  by (relation "measure (\<lambda>(re, f, s). length s)") auto

declare replace_all.simps [simp del]

definition trim :: "jsstring \<Rightarrow> jsstring" where
  "trim s = rev (dropWhile isWhiteSpace (rev (dropWhile isWhiteSpace s)))"

section \<open>Schema qualification\<close>

text \<open>
  The server (\<open>app.post('/api/sql-of-thought')\<close>) rewrites the generated and every
  corrected query with
  \<^verbatim>\<open>.replace(/chinook\.chinook\./gi, 'chinook.')\<close>
  \<^verbatim>\<open>.replace(/FROM\s+(?!chinook\.)(\w+)/gi, 'FROM chinook.$1')\<close>
  \<^verbatim>\<open>.replace(/JOIN\s+(?!chinook\.)(\w+)/gi, 'JOIN chinook.$1')\<close>
  Group 1 is the text of the fourth piece.
\<close>

definition re_double :: "ritem list" where
  "re_double = [LitI (str ''chinook.chinook.'')]"

definition re_from :: "ritem list" where
  "re_from = [LitI (str ''FROM''), Plus isWhiteSpace, NotAheadI (str ''chinook.''), Plus isWordChar]"

definition re_join :: "ritem list" where
  "re_join = [LitI (str ''JOIN''), Plus isWhiteSpace, NotAheadI (str ''chinook.''), Plus isWordChar]"

definition addSchemaPrefix :: "jsstring \<Rightarrow> jsstring" where
  "addSchemaPrefix sql =
     replace_all re_join (\<lambda>ps. str ''JOIN chinook.'' @ ps ! 3)
       (replace_all re_from (\<lambda>ps. str ''FROM chinook.'' @ ps ! 3)
         (replace_all re_double (\<lambda>ps. str ''chinook.'') sql))"

text \<open>
  \<open>executeSQL\<close> of the command-line tool rewrites with
  \<^verbatim>\<open>.replace(/FROM\s+(\w+)/gi, 'FROM chinook.$1').replace(/JOIN\s+(\w+)/gi, 'JOIN chinook.$1')\<close>
  Group 1 is the text of the third piece.
\<close>

definition re_from_tool :: "ritem list" where
  "re_from_tool = [LitI (str ''FROM''), Plus isWhiteSpace, Plus isWordChar]"

definition re_join_tool :: "ritem list" where
  "re_join_tool = [LitI (str ''JOIN''), Plus isWhiteSpace, Plus isWordChar]"

definition prefixSchemaTool :: "jsstring \<Rightarrow> jsstring" where
  "prefixSchemaTool cleanedSQL =
     replace_all re_join_tool (\<lambda>ps. str ''JOIN chinook.'' @ ps ! 2)
       (replace_all re_from_tool (\<lambda>ps. str ''FROM chinook.'' @ ps ! 2) cleanedSQL)"


section \<open>The SQL executor of the command-line tool\<close>

text \<open>
  \<open>executeSQL\<close> first strips comments and surrounding white space:
  \<^verbatim>\<open>sql.replace(/--.*$/gm, '').replace(/\/\*[\s\S]*?\*\//g, '').trim()\<close>
\<close>

definition re_line_comment :: "ritem list" where
  "re_line_comment = [Lit (str ''--''), Star notLineTerminator, EndOfLine]"

definition re_block_comment :: "ritem list" where
  "re_block_comment = [Lit (str ''/*''), LazyStar anyChar, Lit (str ''*/'')]"

definition cleanSQL :: "jsstring \<Rightarrow> jsstring" where
  "cleanSQL sql =
     trim (replace_all re_block_comment (\<lambda>ps. [])
            (replace_all re_line_comment (\<lambda>ps. []) sql))"

text \<open>A JavaScript \<open>Error\<close>; the code only ever reads its \<open>message\<close>.\<close>

datatype js_error = Error (message: jsstring)

text \<open>
  The values a result row can hold. \<open>typeof\<close> is \<open>'bigint'\<close> for \<open>JBigInt\<close> only. A
  Number is an IEEE double that the code passes through untouched; it is represented by
  an integer naming it. A row is a plain object, given by its own properties in
  \<open>Object.entries\<close> order (one per column, so the keys are distinct).
\<close>

datatype jsvalue =
    JBigInt int
  | JString jsstring
  | JNumber int
  | JBool bool
  | JNull
  | JArray "jsvalue list"

type_synonym row = "(jsstring \<times> jsvalue) list"

text \<open>
  What the database driver answers. The tool opens a fresh in-memory database per call:
  \<open>db_install\<close> and \<open>db_attach\<close> are the \<open>err\<close> of the two set-up callbacks, \<open>db_query\<close>
  the outcome of running a statement; \<open>startTime\<close> and \<open>endTime\<close> are what
  \<open>Date.now()\<close> returns at the start and when the result is built.
\<close>

record db_env =
  db_install :: "js_error option"
  db_attach :: "jsstring \<Rightarrow> js_error option"
  db_query :: "jsstring \<Rightarrow> js_error + row list"
  startTime :: int
  endTime :: int

datatype db_call = DbAll jsstring | DbClose

record SQLExecutorOutput =
  out_success :: bool
  out_result :: "row list option"
  out_error :: "jsstring option"
  out_row_count :: "nat option"
  out_execution_time_ms :: "int option"

text \<open>
  \<open>executeSQL sql dbPath\<close>: the value the returned promise resolves with (the executor
  is only handed \<open>resolve\<close>, and every path calls it once), and the calls made on the
  database handle, in order.
\<close>

definition executeSQL :: "db_env \<Rightarrow> jsstring \<Rightarrow> jsstring \<Rightarrow> SQLExecutorOutput \<times> db_call list" where
  "executeSQL env sql dbPath =
     (let cleanedSQL = cleanSQL sql;
          install = str ''INSTALL sqlite; LOAD sqlite;'';
          attach = str ''ATTACH '' @ [39] @ dbPath @ [39] @ str '' AS chinook (TYPE SQLITE);''
      in
      if cleanedSQL = [] then
        (\<lparr>out_success = False, out_result = None,
          out_error = Some (str ''Empty SQL query after cleaning''),
          out_row_count = None, out_execution_time_ms = None\<rparr>, [])
      else
        case db_install env of
          Some err \<Rightarrow>
            (\<lparr>out_success = False, out_result = None,
              out_error = Some (str ''Failed to load SQLite extension: '' @ message err),
              out_row_count = None,
              out_execution_time_ms = Some (endTime env - startTime env)\<rparr>,
             [DbAll install])
        | None \<Rightarrow>
            (case db_attach env attach of
               Some err \<Rightarrow>
                 (\<lparr>out_success = False, out_result = None,
                   out_error = Some (str ''Failed to attach database: '' @ message err),
                   out_row_count = None,
                   out_execution_time_ms = Some (endTime env - startTime env)\<rparr>,
                  [DbAll install, DbAll attach, DbClose])
             | None \<Rightarrow>
                 (let sqlWithSchema = prefixSchemaTool cleanedSQL;
                      executionTime = endTime env - startTime env
                  in
                  case db_query env sqlWithSchema of
                    Inl err \<Rightarrow>
                      (\<lparr>out_success = False, out_result = None,
                        out_error = Some (message err),
                        out_row_count = None,
                        out_execution_time_ms = Some executionTime\<rparr>,
                       [DbAll install, DbAll attach, DbAll sqlWithSchema, DbClose])
                  | Inr rows \<Rightarrow>
                      (\<lparr>out_success = True, out_result = Some rows,
                        out_error = None,
                        out_row_count = Some (length rows),
                        out_execution_time_ms = Some executionTime\<rparr>,
                       [DbAll install, DbAll attach, DbAll sqlWithSchema, DbClose]))))"


section \<open>Events and the response stream of the server\<close>

datatype agent = Schema | Subproblem | Queryplan | Sql | Execute | Correction

text \<open>
  The events of the stream, by their \<open>type\<close>, with the fields of their \<open>data\<close>:
  \<open>{agent}\<close>, \<open>{agent, output}\<close>, \<open>{agent, error}\<close>, \<open>{agent, output}\<close>,
  \<open>{success, sql, results, attempts}\<close> and \<open>{error}\<close>. The \<open>timestamp\<close> is left out.
\<close>

datatype event =
    agent_start agent
  | agent_complete agent jsstring
  | agent_error agent jsstring
  | agent_update agent jsstring
  | complete bool jsstring "row list" nat
  | error jsstring

text \<open>\<open>JSON.stringify\<close> throws a TypeError on a BigInt, at any depth.\<close>

fun hasBigInt :: "jsvalue \<Rightarrow> bool" where
  "hasBigInt (JBigInt n) = True"
| "hasBigInt (JArray vs) = (\<exists>v \<in> set vs. hasBigInt v)"
| "hasBigInt v = False"

fun JSON_stringify :: "event \<Rightarrow> js_error + event" where
  "JSON_stringify (complete b q rows n) =
     (if \<exists>r \<in> set rows. \<exists>kv \<in> set r. hasBigInt (snd kv)
      then Inl (Error (str ''Do not know how to serialize a BigInt''))
      else Inr (complete b q rows n))"
| "JSON_stringify ev = Inr ev"

text \<open>
  The handler's flag \<open>responseEnded\<close> and the response object: whether it still takes
  writes, and what was written to the client. A write or an end on a response that no
  longer takes them reaches nobody; the model lets it throw, which is the case the
  \<open>try\<close>/\<open>catch\<close> around every \<open>res.write\<close> and \<open>res.end\<close> is there for.
\<close>

record conn =
  responseEnded :: bool
  writable :: bool
  wire :: "event list"

definition res_write :: "conn \<Rightarrow> event \<Rightarrow> js_error + conn" where
  "res_write c ev =
     (if writable c then Inr (c\<lparr>wire := wire c @ [ev]\<rparr>)
      else Inl (Error (str ''write after end'')))"

definition res_end :: "conn \<Rightarrow> js_error + conn" where
  "res_end c =
     (if writable c then Inr (c\<lparr>writable := False\<rparr>)
      else Inl (Error (str ''end after end'')))"

definition safeEnd :: "conn \<Rightarrow> conn" where
  "safeEnd c =
     (if \<not> responseEnded c then
        (let c' = c\<lparr>responseEnded := True\<rparr> in
         case res_end c' of Inl e \<Rightarrow> c' | Inr c'' \<Rightarrow> c'')
      else c)"

definition emit :: "conn \<Rightarrow> event \<Rightarrow> conn" where
  "emit c ev =
     (if responseEnded c then c
      else case JSON_stringify ev of
             Inl e \<Rightarrow> c
           | Inr msg \<Rightarrow> (case res_write c msg of Inl e \<Rightarrow> c | Inr c' \<Rightarrow> c'))"

text \<open>The write of the \<open>error\<close> event in the handler's outer \<open>catch\<close>.\<close>

definition write_error :: "conn \<Rightarrow> js_error \<Rightarrow> conn" where
  "write_error c err =
     (if \<not> responseEnded c then
        (case res_write c (error (message err)) of Inl e \<Rightarrow> c | Inr c' \<Rightarrow> c')
      else c)"

text \<open>The callback of \<open>req.on('close', ...)\<close>, and the client going away.\<close>

definition on_close :: "conn \<Rightarrow> conn" where
  "on_close c = c\<lparr>responseEnded := True\<rparr>"

definition client_disconnect :: "conn \<Rightarrow> conn" where
  "client_disconnect c = c\<lparr>writable := False\<rparr>"

section \<open>The agents\<close>

text \<open>
  The language model is outside the program. A call for a JSON reply ends in one of
  four ways: the call rejects; the reply has no content (\<open>message.content\<close> is \<open>null\<close> or
  the empty string); the content is a text that is not JSON, with the SyntaxError that
  \<open>JSON.parse\<close> throws on it; or the content parses to a value.

  The server parses \<open>content || ''\<close> (\<open>callOpenAI\<close>, then \<open>JSON.parse(response)\<close>), and
  \<open>JSON.parse\<close> throws on the empty string.
\<close>

datatype 'a reply = Rejected js_error | NoContent | NotJSON js_error | Parsed 'a

fun agent_result :: "'a reply \<Rightarrow> js_error + 'a" where
  "agent_result (Rejected e) = Inl e"
| "agent_result NoContent = Inl (Error (str ''Unexpected end of JSON input''))"
| "agent_result (NotJSON e) = Inl e"
| "agent_result (Parsed v) = Inr v"

text \<open>
  A parsed value is untyped JSON; it is given by what the handler reads from it. A
  field of type \<open>js_error + _\<close> is \<open>Inl\<close> the TypeError thrown by the read when the value
  has not the shape the expression needs (\<open>linkedSchema.tables.join\<close> with no array
  \<open>tables\<close>; a property of \<open>null\<close>). An optional field is \<open>None\<close> when the read yields
  \<open>undefined\<close> or another falsy value. Texts are as a template literal renders them.
\<close>

record linkedSchema =
  tables :: "js_error + jsstring list"

record subproblems =
  clauses :: "js_error + jsstring list"    \<comment> \<open>\<open>Object.keys(subproblems.clauses || {})\<close>\<close>

record step =
  step_number :: jsstring
  action :: jsstring
  reasoning :: jsstring

record queryPlan =
  steps :: "js_error + step list option"
  final_strategy :: "jsstring option"

record correctionPlan =
  error_categories :: "js_error + jsstring list option"
  root_cause :: "jsstring option"

text \<open>
  What the world outside answers during one request: \<open>getSchema\<close>, the replies of the
  six agents, and \<open>db.all\<close>. The loop's calls are indexed by the value of \<open>attempt\<close> at
  the call. The table inspection inside \<open>correctionPlanAgent\<close> never rejects and only
  changes the prompt, so it is part of \<open>llm_correctionPlan\<close>.
\<close>

record env =
  getSchema :: "js_error + unit"
  llm_schemaLinking :: "linkedSchema reply"
  llm_subproblem :: "subproblems reply"
  llm_queryPlan :: "queryPlan reply"
  llm_sqlGeneration :: "js_error + jsstring"
  db_all :: "nat \<Rightarrow> jsstring \<Rightarrow> js_error + row list"
  llm_correctionPlan :: "nat \<Rightarrow> correctionPlan reply"
  llm_correctionSQL :: "nat \<Rightarrow> js_error + jsstring"

definition schemaLinkingAgent :: "env \<Rightarrow> js_error + linkedSchema" where
  "schemaLinkingAgent env = agent_result (llm_schemaLinking env)"

text \<open>The prompts of the next two agents read the value of the stage before.\<close>

definition subproblemAgent :: "env \<Rightarrow> linkedSchema \<Rightarrow> js_error + subproblems" where
  "subproblemAgent env ls =
     (case tables ls of Inl e \<Rightarrow> Inl e | Inr ts \<Rightarrow> agent_result (llm_subproblem env))"

definition queryPlanAgent :: "env \<Rightarrow> subproblems \<Rightarrow> js_error + queryPlan" where
  "queryPlanAgent env sp =
     (case clauses sp of Inl e \<Rightarrow> Inl e | Inr ks \<Rightarrow> agent_result (llm_queryPlan env))"

text \<open>
  The two SQL agents return
  \<^verbatim>\<open>response.replace(/```sql\n?/g, '').replace(/```\n?/g, '').trim()\<close>
\<close>

definition isNewline :: "nat \<Rightarrow> bool" where
  "isNewline c = (c = 10)"

definition re_fence_sql :: "ritem list" where
  "re_fence_sql = [Lit (str ''```sql''), Opt isNewline]"

definition re_fence :: "ritem list" where
  "re_fence = [Lit (str ''```''), Opt isNewline]"

definition stripFences :: "jsstring \<Rightarrow> jsstring" where
  "stripFences response =
     trim (replace_all re_fence (\<lambda>ps. []) (replace_all re_fence_sql (\<lambda>ps. []) response))"

definition sqlGenerationAgent :: "env \<Rightarrow> js_error + jsstring" where
  "sqlGenerationAgent env =
     (case llm_sqlGeneration env of Inl e \<Rightarrow> Inl e | Inr response \<Rightarrow> Inr (stripFences response))"

definition correctionPlanAgent :: "env \<Rightarrow> nat \<Rightarrow> js_error + correctionPlan" where
  "correctionPlanAgent env n = agent_result (llm_correctionPlan env n)"

definition correctionSQLAgent :: "env \<Rightarrow> nat \<Rightarrow> js_error + jsstring" where
  "correctionSQLAgent env n =
     (case llm_correctionSQL env n of Inl e \<Rightarrow> Inl e | Inr response \<Rightarrow> Inr (stripFences response))"

section \<open>Texts shown to the client\<close>

fun join :: "jsstring \<Rightarrow> jsstring list \<Rightarrow> jsstring" where
  "join sep [] = []"
| "join sep [x] = x"
| "join sep (x # y # ys) = x @ sep @ join sep (y # ys)"

fun decimal :: "nat \<Rightarrow> jsstring" where
  "decimal n = (if n < 10 then [48 + n] else decimal (n div 10) @ [48 + n mod 10])"

declare decimal.simps [simp del]

text \<open>\<open>BigInt.prototype.toString()\<close>: the decimal digits, after \<open>-\<close> for a negative value.\<close>

definition bigint_toString :: "int \<Rightarrow> jsstring" where
  "bigint_toString i = (if i < 0 then 45 # decimal (nat (- i)) else decimal (nat i))"

definition or_else :: "jsstring option \<Rightarrow> jsstring \<Rightarrow> jsstring" where
  "or_else x d = (case x of None \<Rightarrow> d | Some t \<Rightarrow> if t = [] then d else t)"

definition schema_output :: "linkedSchema \<Rightarrow> js_error + jsstring" where
  "schema_output ls =
     (case tables ls of Inl e \<Rightarrow> Inl e | Inr ts \<Rightarrow> Inr (str ''Tables: '' @ join (str '', '') ts))"

definition subproblem_output :: "subproblems \<Rightarrow> js_error + jsstring" where
  "subproblem_output sp =
     (case clauses sp of Inl e \<Rightarrow> Inl e | Inr ks \<Rightarrow> Inr (str ''Clauses: '' @ join (str '', '') ks))"

definition step_line :: "step \<Rightarrow> jsstring" where
  "step_line st =
     step_number st @ str ''. '' @ action st @ [10] @ str ''   '' @ [8594] @ str '' '' @ reasoning st"

definition queryplan_output :: "queryPlan \<Rightarrow> js_error + jsstring" where
  "queryplan_output qp =
     (case steps qp of
        Inl e \<Rightarrow> Inl e
      | Inr sts \<Rightarrow>
          (let stepsDisplay =
                 or_else (map_option (\<lambda>xs. join [10, 10] (map step_line xs)) sts)
                         (str ''No steps generated'');
               n = (case sts of None \<Rightarrow> 0 | Some xs \<Rightarrow> length xs)
           in Inr ([55357, 56523] @ str '' Chain-of-Thought Plan ('' @ decimal n @ str '' steps):''
                   @ [10, 10] @ stepsDisplay @ [10, 10] @ [9989] @ str '' Strategy: ''
                   @ or_else (final_strategy qp) (str ''N/A''))))"

definition correction_output :: "nat \<Rightarrow> correctionPlan \<Rightarrow> js_error \<Rightarrow> js_error + jsstring" where
  "correction_output attempt_no cp err =
     (case error_categories cp of
        Inl e \<Rightarrow> Inl e
      | Inr cats \<Rightarrow>
          Inr (str ''Attempt '' @ decimal (attempt_no + 2) @ str '': ''
               @ or_else (map_option (join (str '', '')) cats) (str ''Analyzing...'')
               @ [10] @ str ''Error: '' @ message err
               @ [10] @ str ''Plan: '' @ or_else (root_cause cp) (str ''Analyzing error...'')))"

section \<open>The execution and correction loop of the server\<close>

text \<open>
  The conversion of a result row:
  \<^verbatim>\<open>converted[key] = typeof value === 'bigint' ? value.toString() : value\<close>
  for each entry of \<open>Object.entries(row)\<close>, on a fresh object \<open>{}\<close>.

  \<open>own_set\<close> creates or overwrites an own property. The assignment \<open>converted[key] = v\<close>
  does that for every key but \<open>__proto__\<close>: that key is an accessor inherited from
  \<open>Object.prototype\<close>, and the assignment runs its setter, which creates no own
  property (it changes the prototype when \<open>v\<close> is an object or \<open>null\<close>, and nothing
  otherwise). So a column named \<open>__proto__\<close> is not in the converted row.
\<close>

fun convert_value :: "jsvalue \<Rightarrow> jsvalue" where
  "convert_value (JBigInt n) = JString (bigint_toString n)"
| "convert_value v = v"

fun own_set :: "row \<Rightarrow> jsstring \<Rightarrow> jsvalue \<Rightarrow> row" where
  "own_set [] k v = [(k, v)]"
| "own_set ((k', v') # r) k v = (if k' = k then (k, v) # r else (k', v') # own_set r k v)"

definition obj_set :: "row \<Rightarrow> jsstring \<Rightarrow> jsvalue \<Rightarrow> row" where
  "obj_set converted key v = (if key = str ''__proto__'' then converted else own_set converted key v)"

definition convert_row :: "row \<Rightarrow> row" where
  "convert_row r = fold (\<lambda>(key, val) converted. obj_set converted key (convert_value val)) r []"

definition maxAttempts :: nat where
  "maxAttempts = 3"

text \<open>The variables of the loop, and the stream.\<close>

record run_state =
  sqlWithSchema :: jsstring
  success :: bool
  attempt :: nat
  results :: "row list"
  stream :: conn

text \<open>
  One pass through the body of \<open>while (attempt < maxAttempts && !success)\<close>. \<open>Inl\<close> is
  an error thrown out of the loop (by a correction agent, inside the \<open>catch\<close> block),
  with the stream as it is then.
\<close>

definition loop_body :: "env \<Rightarrow> run_state \<Rightarrow> (js_error \<times> conn) + run_state" where
  "loop_body env s =
     (let c1 = emit (stream s) (agent_start Execute) in
      case db_all env (attempt s) (sqlWithSchema s) of
        Inr rows \<Rightarrow>
          (let cleanResults = map convert_row rows;
               c2 = emit c1 (agent_complete Execute
                               (decimal (length cleanResults) @ str '' rows returned''))
           in Inr (s\<lparr>success := True, results := cleanResults, stream := c2\<rparr>))
      | Inl err \<Rightarrow>
          (let c2 = emit c1 (agent_error Execute (message err)) in
           if attempt s < maxAttempts - 1 then
             (let c3 = emit c2 (agent_start Correction) in
              case correctionPlanAgent env (attempt s) of
                Inl e \<Rightarrow> Inl (e, c3)
              | Inr cp \<Rightarrow>
                  (case correctionSQLAgent env (attempt s) of
                     Inl e \<Rightarrow> Inl (e, c3)
                   | Inr correctedSQL \<Rightarrow>
                       (case correction_output (attempt s) cp err of
                          Inl e \<Rightarrow> Inl (e, c3)
                        | Inr out \<Rightarrow>
                            (let c4 = emit c3 (agent_complete Correction out);
                                 sql' = addSchemaPrefix correctedSQL;
                                 c5 = emit c4 (agent_update Sql
                                        (str ''Corrected SQL (Attempt '' @ decimal (attempt s + 2)
                                         @ str ''):'' @ [10] @ sql'))
                             in Inr (s\<lparr>sqlWithSchema := sql', attempt := attempt s + 1,
                                       stream := c5\<rparr>)))))
           else
             (let c3 = emit c2 (agent_complete Correction
                                  (str ''Failed after '' @ decimal maxAttempts
                                   @ str '' attempts. Final error: '' @ message err))
              in Inr (s\<lparr>attempt := attempt s + 1, stream := c3\<rparr>))))"

function loop :: "env \<Rightarrow> run_state \<Rightarrow> (js_error \<times> conn) + run_state" where
  "loop env s =
     (if attempt s < maxAttempts \<and> \<not> success s then
        (case loop_body env s of Inl x \<Rightarrow> Inl x | Inr s' \<Rightarrow> loop env s')
      else Inr s)"
  by pat_completeness auto
termination
proof (relation "measure (\<lambda>(env, s). (if success s then 0 else 1) + 2 * (maxAttempts - attempt s))")
  show "wf (measure (\<lambda>(env, s). (if success s then 0 else 1) + 2 * (maxAttempts - attempt s)))"
    by simp
next
  fix env s s'
  assume a: "attempt s < maxAttempts \<and> \<not> success s" and b: "loop_body env s = Inr s'"
  from b have "(success s' \<and> attempt s' = attempt s)
      \<or> (success s' = success s \<and> attempt s' = Suc (attempt s))"
    by (auto simp: loop_body_def Let_def split: sum.splits if_splits)
  with a show "((env, s'), (env, s))
          \<in> measure (\<lambda>(env, s). (if success s then 0 else 1) + 2 * (maxAttempts - attempt s))"
    by auto
qed

declare loop.simps [simp del]

section \<open>The request handler\<close>

record request =
  question :: "jsstring option"
  apiKey :: "jsstring option"

text \<open>\<open>!x\<close> for a field of the body that is a string or missing.\<close>

definition missing :: "jsstring option \<Rightarrow> bool" where
  "missing x = (x = None \<or> x = Some [])"

text \<open>
  The \<open>try\<close> block from the first \<open>emit\<close> on. \<open>Inl\<close> is an error thrown inside it, with
  the stream as it is then.
\<close>

definition pipeline :: "env \<Rightarrow> conn \<Rightarrow> (js_error \<times> conn) + conn" where
  "pipeline env c0 =
     (let c1 = emit c0 (agent_start Schema) in
      case getSchema env of Inl e \<Rightarrow> Inl (e, c1) | Inr schema \<Rightarrow>
      case schemaLinkingAgent env of Inl e \<Rightarrow> Inl (e, c1) | Inr ls \<Rightarrow>
      case schema_output ls of Inl e \<Rightarrow> Inl (e, c1) | Inr out1 \<Rightarrow>
      let c2 = emit c1 (agent_complete Schema out1);
          c3 = emit c2 (agent_start Subproblem) in
      case subproblemAgent env ls of Inl e \<Rightarrow> Inl (e, c3) | Inr sp \<Rightarrow>
      case subproblem_output sp of Inl e \<Rightarrow> Inl (e, c3) | Inr out2 \<Rightarrow>
      let c4 = emit c3 (agent_complete Subproblem out2);
          c5 = emit c4 (agent_start Queryplan) in
      case queryPlanAgent env sp of Inl e \<Rightarrow> Inl (e, c5) | Inr qp \<Rightarrow>
      case queryplan_output qp of Inl e \<Rightarrow> Inl (e, c5) | Inr out3 \<Rightarrow>
      let c6 = emit c5 (agent_complete Queryplan out3);
          c7 = emit c6 (agent_start Sql) in
      case sqlGenerationAgent env of Inl e \<Rightarrow> Inl (e, c7) | Inr generatedSQL \<Rightarrow>
      let sql0 = addSchemaPrefix generatedSQL;
          c8 = emit c7 (agent_complete Sql sql0) in
      case loop env \<lparr>sqlWithSchema = sql0, success = False, attempt = 0, results = [],
                     stream = c8\<rparr> of
        Inl x \<Rightarrow> Inl x
      | Inr s \<Rightarrow>
          Inr (safeEnd (emit (stream s)
                 (complete (success s) generatedSQL (results s) (Suc (attempt s))))))"

text \<open>
  The handler answers 400 with a JSON body when a field is missing; otherwise it opens
  the stream and runs the pipeline, and its outer \<open>catch\<close> writes the \<open>error\<close> event and
  ends the response. \<open>new_conn\<close> is the state when the stream opens.
\<close>

datatype http_result = Json400 jsstring | Stream conn

definition new_conn :: conn where
  "new_conn = \<lparr>responseEnded = False, writable = True, wire = []\<rparr>"

definition handler :: "env \<Rightarrow> request \<Rightarrow> http_result" where
  "handler env req =
     (if missing (apiKey req) then Json400 (str ''API key is required'')
      else if missing (question req) then Json400 (str ''Question is required'')
      else case pipeline env new_conn of
             Inr c \<Rightarrow> Stream c
           | Inl (err, c) \<Rightarrow> Stream (safeEnd (write_error c err)))"

fun events_of :: "http_result \<Rightarrow> event list" where
  "events_of (Json400 body) = []"
| "events_of (Stream c) = wire c"

section \<open>The command-line pipeline\<close>

text \<open>
  The agents of the command-line tool parse \<open>content || '{}'\<close>: a reply with no content
  is read as the empty object. \<open>JSON.parse\<close> throws on any other text that is not JSON.

  A parsed reply, as the pipeline reads it: \<open>null\<close>, with the TypeError that reading a
  property of it throws, or another value, with the outcome of \<open>.tables.join(', ')\<close> on
  it (the only read that needs a shape).
\<close>

datatype cli_json = JsonNull js_error | JsonValue "js_error + jsstring list"

definition emptyObject :: cli_json where
  "emptyObject =
     JsonValue (Inl (Error (str ''Cannot read properties of undefined (reading '' @ [39]
                            @ str ''join'' @ [39] @ str '')'')))"

fun cli_parse :: "cli_json reply \<Rightarrow> js_error + cli_json" where
  "cli_parse (Rejected e) = Inl e"
| "cli_parse NoContent = Inr emptyObject"
| "cli_parse (NotJSON e) = Inl e"
| "cli_parse (Parsed v) = Inr v"

text \<open>Reading a property of the parsed value, as the \<open>console.log\<close> after each parse does.\<close>

fun read_property :: "cli_json \<Rightarrow> js_error + cli_json" where
  "read_property (JsonNull e) = Inl e"
| "read_property (JsonValue t) = Inr (JsonValue t)"

fun tables_join :: "cli_json \<Rightarrow> js_error + jsstring list" where
  "tables_join (JsonNull e) = Inl e"
| "tables_join (JsonValue t) = t"

text \<open>
  What the world outside answers during one run of \<open>sqlOfThought\<close>. The database
  answers of execution \<open>n\<close> are \<open>cli_db n\<close>; the calls of the loop are indexed by the
  value of \<open>attempt\<close> at the call.
\<close>

record cli_env =
  cli_getSchema :: "js_error + unit"
  cli_schemaLinking :: "cli_json reply"
  cli_subproblem :: "cli_json reply"
  cli_queryPlan :: "cli_json reply"
  cli_sqlGeneration :: "js_error + jsstring"
  cli_db :: "nat \<Rightarrow> db_env"
  cli_correctionPlan :: "nat \<Rightarrow> cli_json reply"
  cli_correctionSQL :: "nat \<Rightarrow> js_error + jsstring"

text \<open>
  The agents, after their first line (each prints its banner first; the pipeline below
  adds that line). The prompts of \<open>subproblemAgent\<close> and \<open>queryPlanAgent\<close> read
  \<open>linkedSchema.tables.join(', ')\<close> before the call, and that of \<open>queryPlanAgent\<close>
  reads \<open>subproblems.clauses\<close>. An exception of \<open>readFileSync\<close> while a prompt is built
  counts as a rejected call.
\<close>

definition cli_schemaLinkingAgent :: "cli_env \<Rightarrow> js_error + cli_json" where
  "cli_schemaLinkingAgent env =
     (case cli_parse (cli_schemaLinking env) of Inl e \<Rightarrow> Inl e | Inr result \<Rightarrow> read_property result)"

definition cli_subproblemAgent :: "cli_env \<Rightarrow> cli_json \<Rightarrow> js_error + cli_json" where
  "cli_subproblemAgent env linkedSchema =
     (case tables_join linkedSchema of
        Inl e \<Rightarrow> Inl e
      | Inr ts \<Rightarrow>
          (case cli_parse (cli_subproblem env) of Inl e \<Rightarrow> Inl e | Inr result \<Rightarrow> read_property result))"

definition cli_queryPlanAgent :: "cli_env \<Rightarrow> cli_json \<Rightarrow> cli_json \<Rightarrow> js_error + cli_json" where
  "cli_queryPlanAgent env linkedSchema subproblems =
     (case tables_join linkedSchema of
        Inl e \<Rightarrow> Inl e
      | Inr ts \<Rightarrow>
          (case read_property subproblems of
             Inl e \<Rightarrow> Inl e
           | Inr cl \<Rightarrow>
               (case cli_parse (cli_queryPlan env) of
                  Inl e \<Rightarrow> Inl e
                | Inr result \<Rightarrow> read_property result)))"

text \<open>
  The two SQL agents return
  \<^verbatim>\<open>(content?.trim() || '').replace(/```sql\n?/g, '').replace(/```\n?/g, '').trim()\<close>
\<close>

definition cli_stripFences :: "jsstring \<Rightarrow> jsstring" where
  "cli_stripFences content =
     trim (replace_all re_fence (\<lambda>ps. []) (replace_all re_fence_sql (\<lambda>ps. []) (trim content)))"

definition cli_sqlGenerationAgent :: "cli_env \<Rightarrow> js_error + jsstring" where
  "cli_sqlGenerationAgent env =
     (case cli_sqlGeneration env of Inl e \<Rightarrow> Inl e | Inr content \<Rightarrow> Inr (cli_stripFences content))"

definition cli_correctionPlanAgent :: "cli_env \<Rightarrow> nat \<Rightarrow> js_error + cli_json" where
  "cli_correctionPlanAgent env n =
     (case cli_parse (cli_correctionPlan env n) of Inl e \<Rightarrow> Inl e | Inr result \<Rightarrow> read_property result)"

definition cli_correctionSQLAgent :: "cli_env \<Rightarrow> nat \<Rightarrow> js_error + jsstring" where
  "cli_correctionSQLAgent env n =
     (case cli_correctionSQL env n of Inl e \<Rightarrow> Inl e | Inr content \<Rightarrow> Inr (cli_stripFences content))"

text \<open>
  The lines of the console that tell the course of a run: the banner each agent prints
  when it is called, \<open>Executing SQL...\<close>, \<open>Pipeline error:\<close> with the error caught, and
  the closing line with \<open>success\<close>. The other lines are left out.
\<close>

datatype cli_agent =
  A_SchemaLinking | A_Subproblem | A_QueryPlan | A_SQL | A_CorrectionPlan | A_CorrectionSQL

datatype cli_line =
    AgentBanner cli_agent
  | ExecutingSQL
  | PipelineError js_error
  | Finished bool

definition MAX_CORRECTION_ATTEMPTS :: nat where
  "MAX_CORRECTION_ATTEMPTS = 3"

text \<open>The variables of the loop, and the console.\<close>

record cli_state =
  generatedSQL :: jsstring
  cli_attempt :: nat
  cli_success :: bool
  console :: "cli_line list"

text \<open>
  Printing the first rows (\<open>JSON.stringify\<close> of the converted rows) comes before
  \<open>success = true\<close> and can throw.
\<close>

definition show_rows :: "row list option \<Rightarrow> js_error + unit" where
  "show_rows res =
     (case res of
        None \<Rightarrow> Inr ()
      | Some rows \<Rightarrow>
          if \<exists>r \<in> set (map convert_row (take 5 rows)). \<exists>kv \<in> set r. hasBigInt (snd kv)
          then Inl (Error (str ''Do not know how to serialize a BigInt''))
          else Inr ())"

text \<open>
  One pass through the body of
  \<^verbatim>\<open>while (attempt <= MAX_CORRECTION_ATTEMPTS && !success)\<close>
  \<open>Inl\<close> is an error thrown out of the loop, with the console as it is then.
\<close>

definition cli_loop_body ::
    "cli_env \<Rightarrow> jsstring \<Rightarrow> cli_state \<Rightarrow> (js_error \<times> cli_line list) + cli_state" where
  "cli_loop_body env dbPath s =
     (let l1 = console s @ [ExecutingSQL];
          result = fst (executeSQL (cli_db env (cli_attempt s)) (generatedSQL s) dbPath)
      in
      if out_success result then
        (case show_rows (out_result result) of
           Inl e \<Rightarrow> Inl (e, l1)
         | Inr u \<Rightarrow> Inr (s\<lparr>cli_success := True, console := l1\<rparr>))
      else if cli_attempt s < MAX_CORRECTION_ATTEMPTS then
        (let l2 = l1 @ [AgentBanner A_CorrectionPlan] in
         case cli_correctionPlanAgent env (cli_attempt s) of
           Inl e \<Rightarrow> Inl (e, l2)
         | Inr correctionPlan \<Rightarrow>
             (let l3 = l2 @ [AgentBanner A_CorrectionSQL] in
              case cli_correctionSQLAgent env (cli_attempt s) of
                Inl e \<Rightarrow> Inl (e, l3)
              | Inr correctedSQL \<Rightarrow>
                  Inr (s\<lparr>generatedSQL := correctedSQL, cli_attempt := cli_attempt s + 1,
                         console := l3\<rparr>)))
      else Inr (s\<lparr>cli_attempt := cli_attempt s + 1, console := l1\<rparr>))"

function cli_loop ::
    "cli_env \<Rightarrow> jsstring \<Rightarrow> cli_state \<Rightarrow> (js_error \<times> cli_line list) + cli_state" where
  "cli_loop env dbPath s =
     (if cli_attempt s \<le> MAX_CORRECTION_ATTEMPTS \<and> \<not> cli_success s then
        (case cli_loop_body env dbPath s of Inl x \<Rightarrow> Inl x | Inr s' \<Rightarrow> cli_loop env dbPath s')
      else Inr s)"
  by pat_completeness auto
termination
proof (relation "measure (\<lambda>(env, dbPath, s).
         (if cli_success s then 0 else 1) + 2 * (Suc MAX_CORRECTION_ATTEMPTS - cli_attempt s))")
  show "wf (measure (\<lambda>(env, dbPath, s).
         (if cli_success s then 0 else 1) + 2 * (Suc MAX_CORRECTION_ATTEMPTS - cli_attempt s)))"
    by simp
next
  fix env dbPath s s'
  assume a: "cli_attempt s \<le> MAX_CORRECTION_ATTEMPTS \<and> \<not> cli_success s"
    and b: "cli_loop_body env dbPath s = Inr s'"
  from b have "(cli_success s' \<and> cli_attempt s' = cli_attempt s)
      \<or> (cli_success s' = cli_success s \<and> cli_attempt s' = Suc (cli_attempt s))"
    by (auto simp: cli_loop_body_def Let_def split: sum.splits if_splits)
  with a show "((env, dbPath, s'), (env, dbPath, s))
      \<in> measure (\<lambda>(env, dbPath, s).
         (if cli_success s then 0 else 1) + 2 * (Suc MAX_CORRECTION_ATTEMPTS - cli_attempt s))"
    by auto
qed

declare cli_loop.simps [simp del]

text \<open>
  \<open>sqlOfThought\<close>: the \<open>try\<close> block and its \<open>catch\<close>, which prints the error and lets the
  function return. The result is the console.
\<close>

definition sqlOfThought :: "cli_env \<Rightarrow> jsstring \<Rightarrow> cli_line list" where
  "sqlOfThought env dbPath =
     (case cli_getSchema env of Inl e \<Rightarrow> [PipelineError e] | Inr schema \<Rightarrow>
      let l1 = [AgentBanner A_SchemaLinking] in
      case cli_schemaLinkingAgent env of Inl e \<Rightarrow> l1 @ [PipelineError e] | Inr linkedSchema \<Rightarrow>
      let l2 = l1 @ [AgentBanner A_Subproblem] in
      case cli_subproblemAgent env linkedSchema of Inl e \<Rightarrow> l2 @ [PipelineError e] | Inr subproblems \<Rightarrow>
      let l3 = l2 @ [AgentBanner A_QueryPlan] in
      case cli_queryPlanAgent env linkedSchema subproblems of
        Inl e \<Rightarrow> l3 @ [PipelineError e] | Inr queryPlan \<Rightarrow>
      let l4 = l3 @ [AgentBanner A_SQL] in
      case cli_sqlGenerationAgent env of Inl e \<Rightarrow> l4 @ [PipelineError e] | Inr sql \<Rightarrow>
      case cli_loop env dbPath
             \<lparr>generatedSQL = sql, cli_attempt = 0, cli_success = False, console = l4\<rparr> of
        Inl (e, l) \<Rightarrow> l @ [PipelineError e]
      | Inr s \<Rightarrow> console s @ [Finished (cli_success s)])"

section \<open>Notions used in the properties\<close>

text \<open>An open stream and an ended one.\<close>

definition live :: "event list \<Rightarrow> conn" where
  "live w = \<lparr>responseEnded = False, writable = True, wire = w\<rparr>"

definition ended :: "event list \<Rightarrow> conn" where
  "ended w = \<lparr>responseEnded = True, writable = False, wire = w\<rparr>"

fun is_complete :: "event \<Rightarrow> bool" where
  "is_complete (complete b q rows n) = True"
| "is_complete ev = False"

fun agent_of :: "event \<Rightarrow> agent option" where
  "agent_of (agent_start a) = Some a"
| "agent_of (agent_complete a out) = Some a"
| "agent_of (agent_error a msg) = Some a"
| "agent_of (agent_update a out) = Some a"
| "agent_of ev = None"

text \<open>The agent whose stage an event closes.\<close>

fun closes :: "event \<Rightarrow> agent option" where
  "closes (agent_complete a out) = Some a"
| "closes (agent_error a msg) = Some a"
| "closes ev = None"

text \<open>
  Every \<open>agent_complete\<close> and \<open>agent_error\<close> of an agent has an \<open>agent_start\<close> of that
  agent at an earlier position.
\<close>

definition start_precedes :: "event list \<Rightarrow> bool" where
  "start_precedes evs =
     (\<forall>n < length evs. \<forall>a. closes (evs ! n) = Some a \<longrightarrow> (\<exists>m < n. evs ! m = agent_start a))"

fun ordered_from :: "event list \<Rightarrow> event list \<Rightarrow> bool" where
  "ordered_from seen [] = True"
| "ordered_from seen (ev # evs) =
     ((case closes ev of None \<Rightarrow> True | Some a \<Rightarrow> agent_start a \<in> set seen)
      \<and> ordered_from (seen @ [ev]) evs)"

definition ordered_state :: "run_state \<Rightarrow> bool" where
  "ordered_state s =
     (\<exists>w. stream s = live w \<and> start_precedes w
          \<and> (0 < attempt s \<longrightarrow> agent_start Correction \<in> set w))"

definition ordered_conn :: "conn \<Rightarrow> bool" where
  "ordered_conn c = (\<exists>w. c = live w \<and> start_precedes w)"

text \<open>The number of correction cycles begun.\<close>

definition correction_cycles :: "event list \<Rightarrow> nat" where
  "correction_cycles evs = length (filter (\<lambda>ev. ev = agent_start Correction) evs)"

definition executions :: "event list \<Rightarrow> nat" where
  "executions evs = length (filter (\<lambda>ev. ev = agent_start Execute) evs)"

text \<open>
  For a run in which the correction plan of cycle \<open>n\<close> is not JSON: no \<open>complete\<close> event
  so far, at most \<open>n\<close> cycles begun, and as many cycles and executions as \<open>attempt\<close> says
  while the loop goes on. When the loop throws, either at most \<open>n\<close> cycles have begun, or
  the error is the parser's and the last event is the start of cycle \<open>n\<close>, after \<open>n\<close>
  cycles and \<open>n + 1\<close> executions.
\<close>

definition before_cycle :: "nat \<Rightarrow> run_state \<Rightarrow> bool" where
  "before_cycle n s =
     (\<exists>w. stream s = live w \<and> correction_cycles w \<le> n \<and> (\<forall>ev \<in> set w. \<not> is_complete ev)
          \<and> (attempt s < maxAttempts \<and> \<not> success s
                \<longrightarrow> attempt s \<le> n \<and> correction_cycles w = attempt s
                    \<and> executions w = attempt s))"

definition thrown_at_cycle :: "nat \<Rightarrow> js_error \<Rightarrow> js_error \<Rightarrow> conn \<Rightarrow> bool" where
  "thrown_at_cycle n e e' c =
     (\<exists>w. c = live w \<and> (\<forall>ev \<in> set w. \<not> is_complete ev)
          \<and> (correction_cycles w \<le> n
              \<or> (e' = e \<and> (\<exists>pre. w = pre @ [agent_start Correction]
                                  \<and> correction_cycles pre = n \<and> executions pre = Suc n))))"

text \<open>
  The counts kept by the loop: no \<open>complete\<close> event so far, one execution per failed pass
  and one more after a success, and one correction cycle per failed pass but the last.
\<close>

definition counted_state :: "run_state \<Rightarrow> bool" where
  "counted_state s =
     (\<exists>w. stream s = live w \<and> (\<forall>ev \<in> set w. \<not> is_complete ev)
          \<and> attempt s \<le> maxAttempts \<and> (success s \<longrightarrow> attempt s < maxAttempts)
          \<and> correction_cycles w = min (attempt s) (maxAttempts - 1)
          \<and> executions w = attempt s + (if success s then 1 else 0))"

definition no_complete :: "conn \<Rightarrow> bool" where
  "no_complete c = (\<exists>w. c = live w \<and> (\<forall>ev \<in> set w. \<not> is_complete ev))"




text \<open>
  The correction cycles of a command-line run, on its console: the calls of
  \<open>correctionPlanAgent\<close> and of \<open>correctionSQLAgent\<close>.
\<close>

definition plan_calls :: "cli_line list \<Rightarrow> nat" where
  "plan_calls l = length (filter (\<lambda>x. x = AgentBanner A_CorrectionPlan) l)"

definition sql_calls :: "cli_line list \<Rightarrow> nat" where
  "sql_calls l = length (filter (\<lambda>x. x = AgentBanner A_CorrectionSQL) l)"

text \<open>
  While the loop goes on, both agents have been called once per failed pass, and every
  call of \<open>correctionPlanAgent\<close> so far has returned. When the loop throws, either that
  is still so, or the error comes from the call of \<open>correctionPlanAgent\<close> whose banner is
  the last line.
\<close>

definition cli_counted :: "cli_env \<Rightarrow> cli_state \<Rightarrow> bool" where
  "cli_counted env s =
     (plan_calls (console s) = min (cli_attempt s) MAX_CORRECTION_ATTEMPTS
      \<and> sql_calls (console s) = min (cli_attempt s) MAX_CORRECTION_ATTEMPTS
      \<and> (\<forall>k < min (cli_attempt s) MAX_CORRECTION_ATTEMPTS.
            \<exists>v. cli_correctionPlanAgent env k = Inr v))"

definition cli_thrown :: "cli_env \<Rightarrow> js_error \<Rightarrow> cli_line list \<Rightarrow> bool" where
  "cli_thrown env e l =
     ((plan_calls l = sql_calls l
         \<and> (\<forall>k < plan_calls l. \<exists>v. cli_correctionPlanAgent env k = Inr v))
      \<or> (\<exists>pre. l = pre @ [AgentBanner A_CorrectionPlan]
              \<and> sql_calls pre = plan_calls pre
              \<and> cli_correctionPlanAgent env (plan_calls pre) = Inl e
              \<and> (\<forall>k < plan_calls pre. \<exists>v. cli_correctionPlanAgent env k = Inr v)))"



section \<open>Sample requests\<close>

definition req0 :: request where
  "req0 = \<lparr>question = Some (str ''q''), apiKey = Some (str ''k'')\<rparr>"

text \<open>Every stage answers, and the query runs at once.\<close>

definition env_ok :: env where
  "env_ok =
     \<lparr>getSchema = Inr (),
      llm_schemaLinking = Parsed \<lparr>tables = Inr [str ''t'']\<rparr>,
      llm_subproblem = Parsed \<lparr>clauses = Inr [str ''SELECT'', str ''FROM'']\<rparr>,
      llm_queryPlan = Parsed \<lparr>steps = Inr None, final_strategy = None\<rparr>,
      llm_sqlGeneration = Inr (str ''SELECT y FROM t''),
      db_all = (\<lambda>n q. Inr [[(str ''y'', JBigInt 9007199254740993)]]),
      llm_correctionPlan = (\<lambda>n. Parsed \<lparr>error_categories = Inr None, root_cause = None\<rparr>),
      llm_correctionSQL = (\<lambda>n. Inr (str ''SELECT y FROM t''))\<rparr>"

text \<open>The database rejects every query.\<close>

definition env_fail :: env where
  "env_fail = env_ok\<lparr>llm_sqlGeneration := Inr (str ''SELECT x FROM t''),
                     db_all := (\<lambda>n q. Inl (Error (str ''no x'')))\<rparr>"

text \<open>The generated query fails; the corrected one runs.\<close>

definition env_retry :: env where
  "env_retry = env_ok\<lparr>llm_sqlGeneration := Inr (str ''SELECT x FROM t''),
                      db_all := (\<lambda>n q. if q = str ''SELECT y FROM chinook.t''
                                        then Inr [[(str ''y'', JNumber 1)]]
                                        else Inl (Error (str ''no x'')))\<rparr>"

text \<open>A reply that is not JSON, at each of the three stages.\<close>

definition env_subproblem_notjson :: env where
  "env_subproblem_notjson = env_ok\<lparr>llm_subproblem := NotJSON (Error (str ''Unexpected token''))\<rparr>"

definition env_queryplan_notjson :: env where
  "env_queryplan_notjson = env_ok\<lparr>llm_queryPlan := NotJSON (Error (str ''Unexpected token''))\<rparr>"

definition env_correction_notjson :: env where
  "env_correction_notjson =
     env_fail\<lparr>llm_correctionPlan := (\<lambda>n. NotJSON (Error (str ''Unexpected token'')))\<rparr>"

text \<open>A database for the tool that answers one row holding a 64-bit integer.\<close>

definition db_bigint :: db_env where
  "db_bigint =
     \<lparr>db_install = None, db_attach = (\<lambda>stmt. None),
      db_query = (\<lambda>q. Inr [[(str ''n'', JBigInt 9007199254740993)]]),
      startTime = 0, endTime = 5\<rparr>"

text \<open>The loop variables when the first execution begins, for the failing query.\<close>

definition first_try :: run_state where
  "first_try = \<lparr>sqlWithSchema = str ''SELECT x FROM chinook.t'', success = False, attempt = 0,
                 results = [], stream = live []\<rparr>"

definition second_try :: run_state where
  "second_try =
     \<lparr>sqlWithSchema = str ''SELECT y FROM chinook.t'', success = False, attempt = 1,
      results = [],
      stream = live [agent_start Execute, agent_error Execute (str ''no x''),
                     agent_start Correction,
                     agent_complete Correction
                       (str ''Attempt 2: Analyzing...'' @ [10] @ str ''Error: no x'' @ [10]
                        @ str ''Plan: Analyzing error...''),
                     agent_update Sql
                       (str ''Corrected SQL (Attempt 2):'' @ [10]
                        @ str ''SELECT y FROM chinook.t'')]\<rparr>"

text \<open>A database for the tool that rejects the query.\<close>

definition db_failing :: db_env where
  "db_failing =
     \<lparr>db_install = None, db_attach = (\<lambda>stmt. None),
      db_query = (\<lambda>q. Inl (Error (str ''no n''))),
      startTime = 0, endTime = 5\<rparr>"

text \<open>A run of the command-line pipeline in which every stage answers and the query runs.\<close>

definition cli_env_ok :: cli_env where
  "cli_env_ok =
     \<lparr>cli_getSchema = Inr (),
      cli_schemaLinking = Parsed (JsonValue (Inr [str ''t''])),
      cli_subproblem = Parsed (JsonValue (Inr [])),
      cli_queryPlan = Parsed (JsonValue (Inr [])),
      cli_sqlGeneration = Inr (str ''SELECT n FROM t''),
      cli_db = (\<lambda>n. db_bigint),
      cli_correctionPlan = (\<lambda>n. Parsed (JsonValue (Inr []))),
      cli_correctionSQL = (\<lambda>n. Inr (str ''SELECT n FROM t''))\<rparr>"

text \<open>The database rejects every query of the command-line run.\<close>

definition cli_env_fail :: cli_env where
  "cli_env_fail = cli_env_ok\<lparr>cli_db := (\<lambda>n. db_failing)\<rparr>"

text \<open>
  Command-line runs with a reply that is not JSON, and with a reply without content, at
  each of the three stages.
\<close>

definition cli_env_subproblem_notjson :: cli_env where
  "cli_env_subproblem_notjson =
     cli_env_ok\<lparr>cli_subproblem := NotJSON (Error (str ''Unexpected token''))\<rparr>"

definition cli_env_subproblem_nocontent :: cli_env where
  "cli_env_subproblem_nocontent = cli_env_ok\<lparr>cli_subproblem := NoContent\<rparr>"

definition cli_env_queryplan_notjson :: cli_env where
  "cli_env_queryplan_notjson =
     cli_env_ok\<lparr>cli_queryPlan := NotJSON (Error (str ''Unexpected token''))\<rparr>"

definition cli_env_queryplan_nocontent :: cli_env where
  "cli_env_queryplan_nocontent = cli_env_ok\<lparr>cli_queryPlan := NoContent\<rparr>"

definition cli_env_correction_notjson :: cli_env where
  "cli_env_correction_notjson =
     cli_env_fail\<lparr>cli_correctionPlan := (\<lambda>n. NotJSON (Error (str ''Unexpected token'')))\<rparr>"

definition cli_env_correction_nocontent :: cli_env where
  "cli_env_correction_nocontent = cli_env_fail\<lparr>cli_correctionPlan := (\<lambda>n. NoContent)\<rparr>"

section \<open>Evaluation rules\<close>

lemmas regex_eval =
  str_def startsWith_def startsWithI_def canonicalize_def isLineTerminator_def
  isWhiteSpace_def isWordChar_def notLineTerminator_def anyChar_def replace_all.simps

lemmas rewrite_eval =
  re_double_def re_from_def re_join_def addSchemaPrefix_def
  re_from_tool_def re_join_tool_def prefixSchemaTool_def

lemmas fence_eval = stripFences_def re_fence_def re_fence_sql_def isNewline_def trim_def

lemma str_eq_iff: "(str a = str b) = (a = b)"
  by (simp add: str_def inj_map_eq_map [OF inj_of_char])

lemma str_Nil_iff: "(str a = []) = (a = [])"
  by (simp add: str_def)

lemma str_append: "str a @ str b = str (a @ b)"
  by (simp add: str_def)

lemma cleanSQL_block_with_dashes: "cleanSQL (str ''/* -- */'') = str ''/*''"
  by (simp add: cleanSQL_def re_line_comment_def re_block_comment_def trim_def regex_eval)

lemma cleanSQL_select_n: "cleanSQL (str ''SELECT n FROM t'') = str ''SELECT n FROM t''"
  by (simp add: cleanSQL_def re_line_comment_def re_block_comment_def trim_def regex_eval)

lemma prefixSchemaTool_select_n:
  "prefixSchemaTool (str ''SELECT n FROM t'') = str ''SELECT n FROM chinook.t''"
  by (simp add: rewrite_eval regex_eval)

lemma stripFences_select_x: "stripFences (str ''SELECT x FROM t'') = str ''SELECT x FROM t''"
  by (simp add: fence_eval regex_eval)

lemma stripFences_select_y: "stripFences (str ''SELECT y FROM t'') = str ''SELECT y FROM t''"
  by (simp add: fence_eval regex_eval)

lemma addSchemaPrefix_select_x:
  "addSchemaPrefix (str ''SELECT x FROM t'') = str ''SELECT x FROM chinook.t''"
  by (simp add: rewrite_eval regex_eval)

lemma addSchemaPrefix_select_y:
  "addSchemaPrefix (str ''SELECT y FROM t'') = str ''SELECT y FROM chinook.t''"
  by (simp add: rewrite_eval regex_eval)

lemma decimal_small:
  "decimal 0 = str ''0''" "decimal 1 = str ''1''" "decimal 2 = str ''2''" "decimal 3 = str ''3''"
  "decimal (Suc 0) = str ''1''" "decimal (Suc (Suc 0)) = str ''2''"
  "decimal (Suc (Suc (Suc 0))) = str ''3''"
  by (simp_all add: decimal.simps str_def)

lemmas sample_sql = decimal_small str_append stripFences_select_x stripFences_select_y
  addSchemaPrefix_select_x addSchemaPrefix_select_y str_eq_iff str_Nil_iff

section \<open>The stream\<close>

lemma stringify_other: "\<not> is_complete ev \<Longrightarrow> JSON_stringify ev = Inr ev"
  by (cases ev) simp_all

lemma new_conn_live: "new_conn = live []"
  by (simp add: new_conn_def live_def)

lemma emit_live: "\<not> is_complete ev \<Longrightarrow> emit (live w) ev = live (w @ [ev])"
  by (simp add: emit_def live_def res_write_def stringify_other)

lemma emit_live_complete:
  "emit (live w) (complete b q rows n) = live w
   \<or> emit (live w) (complete b q rows n) = live (w @ [complete b q rows n])"
  by (simp add: emit_def live_def res_write_def)

lemma emit_live_complete_plain:
  "\<forall>r \<in> set rows. \<forall>kv \<in> set r. \<not> hasBigInt (snd kv) \<Longrightarrow>
     emit (live w) (complete b q rows n) = live (w @ [complete b q rows n])"
  by (simp add: emit_def live_def res_write_def)

lemma safeEnd_live: "safeEnd (live w) = ended w"
  by (simp add: safeEnd_def live_def ended_def res_end_def Let_def)

lemma write_error_live: "write_error (live w) err = live (w @ [error (message err)])"
  by (simp add: write_error_def live_def res_write_def)

lemma live_eq: "(live w = live w') = (w = w')"
  by (simp add: live_def)

lemma wire_live: "wire (live w) = w"
  by (simp add: live_def)

lemma wire_ended: "wire (ended w) = w"
  by (simp add: ended_def)

lemmas stream_eval = new_conn_live emit_live emit_live_complete_plain safeEnd_live
  write_error_live live_eq wire_live wire_ended

lemmas agent_eval = schemaLinkingAgent_def subproblemAgent_def queryPlanAgent_def
  sqlGenerationAgent_def correctionPlanAgent_def correctionSQLAgent_def
  schema_output_def subproblem_output_def queryplan_output_def correction_output_def

lemmas run_eval = handler_def pipeline_def loop.simps loop_body_def Let_def missing_def
  maxAttempts_def convert_row_def obj_set_def

lemmas sample_env = req0_def env_ok_def env_fail_def env_retry_def
  env_subproblem_notjson_def env_queryplan_notjson_def env_correction_notjson_def

section \<open>Decimal texts\<close>







section \<open>Row conversion\<close>




section \<open>The order of the events\<close>

lemma start_precedes_snoc:
  "start_precedes (evs @ [ev]) =
     (start_precedes evs \<and> (case closes ev of None \<Rightarrow> True | Some a \<Rightarrow> agent_start a \<in> set evs))"
proof
  assume L: "start_precedes (evs @ [ev])"
  then have L': "\<And>n a. n < Suc (length evs) \<Longrightarrow> closes ((evs @ [ev]) ! n) = Some a
                  \<Longrightarrow> \<exists>m<n. (evs @ [ev]) ! m = agent_start a"
    unfolding start_precedes_def by simp
  have "start_precedes evs"
    unfolding start_precedes_def
  proof (intro allI impI)
    fix n a
    assume n: "n < length evs" and c: "closes (evs ! n) = Some a"
    from n c have "closes ((evs @ [ev]) ! n) = Some a"
      by (simp add: nth_append)
    with n L' [of n a] obtain m where m: "m < n" "(evs @ [ev]) ! m = agent_start a"
      by auto
    with n have "evs ! m = agent_start a"
      by (simp add: nth_append)
    with m show "\<exists>m<n. evs ! m = agent_start a"
      by blast
  qed
  moreover have "case closes ev of None \<Rightarrow> True | Some a \<Rightarrow> agent_start a \<in> set evs"
  proof (cases "closes ev")
    case None
    then show ?thesis by simp
  next
    case (Some a)
    then have "closes ((evs @ [ev]) ! length evs) = Some a"
      by simp
    with L' [of "length evs" a] obtain m where m: "m < length evs" "(evs @ [ev]) ! m = agent_start a"
      by auto
    then have "evs ! m = agent_start a"
      by (simp add: nth_append)
    with m have "agent_start a \<in> set evs"
      by (metis nth_mem)
    with Some show ?thesis by simp
  qed
  ultimately show "start_precedes evs \<and> (case closes ev of None \<Rightarrow> True | Some a \<Rightarrow> agent_start a \<in> set evs)"
    by blast
next
  assume R: "start_precedes evs \<and> (case closes ev of None \<Rightarrow> True | Some a \<Rightarrow> agent_start a \<in> set evs)"
  show "start_precedes (evs @ [ev])"
    unfolding start_precedes_def
  proof (intro allI impI)
    fix n a
    assume n: "n < length (evs @ [ev])" and c: "closes ((evs @ [ev]) ! n) = Some a"
    show "\<exists>m<n. (evs @ [ev]) ! m = agent_start a"
    proof (cases "n < length evs")
      case True
      with c have "closes (evs ! n) = Some a"
        by (simp add: nth_append)
      with R True obtain m where m: "m < n" "evs ! m = agent_start a"
        unfolding start_precedes_def by blast
      with True have "(evs @ [ev]) ! m = agent_start a"
        by (simp add: nth_append)
      with m show ?thesis by blast
    next
      case False
      with n have eq: "n = length evs" by simp
      with c have "closes ev = Some a" by simp
      with R have "agent_start a \<in> set evs" by simp
      then obtain m where m: "m < length evs" "evs ! m = agent_start a"
        by (auto simp: in_set_conv_nth)
      then have "(evs @ [ev]) ! m = agent_start a"
        by (simp add: nth_append)
      with m eq show ?thesis by blast
    qed
  qed
qed

lemma start_precedes_Nil: "start_precedes []"
  by (simp add: start_precedes_def)

lemma start_precedes_append:
  "start_precedes (xs @ ys) = (start_precedes xs \<and> ordered_from xs ys)"
proof (induction ys arbitrary: xs)
  case Nil
  then show ?case by simp
next
  case (Cons y ys)
  have "start_precedes (xs @ y # ys) = start_precedes ((xs @ [y]) @ ys)"
    by simp
  also have "\<dots> = (start_precedes (xs @ [y]) \<and> ordered_from (xs @ [y]) ys)"
    by (rule Cons.IH)
  finally show ?case
    by (auto simp: start_precedes_snoc)
qed

lemma start_precedes_eval: "start_precedes evs = ordered_from [] evs"
  using start_precedes_append [of "[]" evs] by (simp add: start_precedes_Nil)

lemma loop_body_ordered:
  assumes "ordered_state s"
  shows "case loop_body env s of Inr s' \<Rightarrow> ordered_state s' | Inl (e, c) \<Rightarrow> ordered_conn c"
proof -
  from assms obtain w where w: "stream s = live w" "start_precedes w"
      "0 < attempt s \<longrightarrow> agent_start Correction \<in> set w"
    unfolding ordered_state_def by auto
  show ?thesis
    using w
    by (auto simp: loop_body_def Let_def emit_live ordered_state_def ordered_conn_def
                   start_precedes_append maxAttempts_def live_eq
             split: sum.splits)
qed

lemma loop_ordered:
  "ordered_state s \<Longrightarrow>
     (case loop env s of Inr s' \<Rightarrow> ordered_state s' | Inl (e, c) \<Rightarrow> ordered_conn c)"
proof (induction env s rule: loop.induct)
  case (1 env s)
  show ?case
  proof (cases "attempt s < maxAttempts \<and> \<not> success s")
    case False
    then show ?thesis
      using "1.prems" by (auto simp: loop.simps [of env s])
  next
    case True
    show ?thesis
    proof (cases "loop_body env s")
      case (Inl x)
      with True loop_body_ordered [OF "1.prems", of env] show ?thesis
        by (simp add: loop.simps [of env s])
    next
      case (Inr s')
      with loop_body_ordered [OF "1.prems", of env] have "ordered_state s'"
        by simp
      with "1.IH" [OF True Inr]
      have "case loop env s' of Inr s'' \<Rightarrow> ordered_state s'' | Inl (e, c) \<Rightarrow> ordered_conn c"
        by simp
      with True Inr show ?thesis
        by (simp add: loop.simps [of env s])
    qed
  qed
qed

lemma loop_ordered_Inr: "ordered_state s \<Longrightarrow> loop env s = Inr s' \<Longrightarrow> ordered_state s'"
  using loop_ordered [of s env] by simp

lemma loop_ordered_Inl: "ordered_state s \<Longrightarrow> loop env s = Inl (e, c) \<Longrightarrow> ordered_conn c"
  using loop_ordered [of s env] by simp

lemma pipeline_ordered:
  "case pipeline env new_conn of
     Inr c \<Rightarrow> start_precedes (wire c)
   | Inl (e, c) \<Rightarrow> ordered_conn c"
proof -
  have start: "\<And>o1 o2 o3 q. ordered_state
      \<lparr>sqlWithSchema = q, success = False, attempt = 0, results = [],
        stream = live [agent_start Schema, agent_complete Schema o1, agent_start Subproblem,
                       agent_complete Subproblem o2, agent_start Queryplan,
                       agent_complete Queryplan o3, agent_start Sql, agent_complete Sql q]\<rparr>"
    by (simp add: ordered_state_def start_precedes_eval live_eq)
  have fin: "\<And>s b q rows n. ordered_state s \<Longrightarrow>
      start_precedes (wire (safeEnd (emit (stream s) (complete b q rows n))))"
  proof -
    fix s b q rows n
    assume "ordered_state s"
    then obtain w where w: "stream s = live w" "start_precedes w"
      unfolding ordered_state_def by auto
    from emit_live_complete [of w b q rows n] w show
      "start_precedes (wire (safeEnd (emit (stream s) (complete b q rows n))))"
      by (auto simp: safeEnd_live wire_ended start_precedes_snoc)
  qed
  show ?thesis
    unfolding pipeline_def Let_def new_conn_live
    by (auto simp: emit_live ordered_conn_def start_precedes_eval live_eq
                   fin [unfolded start_precedes_eval]
             split: sum.split
             dest!: loop_ordered_Inr [OF start] loop_ordered_Inl [OF start])
qed


section \<open>Properties of the loop\<close>

lemma loop_success: "success s \<Longrightarrow> loop env s = Inr s"
  by (simp add: loop.simps)

lemma cli_loop_success: "cli_success s \<Longrightarrow> cli_loop env p s = Inr s"
  by (simp add: cli_loop.simps)

lemma loop_first_success:
  assumes "db_all env 0 q = Inr rows"
  shows "loop env \<lparr>sqlWithSchema = q, success = False, attempt = 0, results = [], stream = live w\<rparr>
       = Inr \<lparr>sqlWithSchema = q, success = True, attempt = 0, results = map convert_row rows,
              stream = live (w @ [agent_start Execute,
                                  agent_complete Execute
                                    (decimal (length rows) @ str '' rows returned'')])\<rparr>"
  using assms
  by (simp add: loop.simps [of env "\<lparr>sqlWithSchema = q, success = False, attempt = 0,
                                     results = [], stream = live w\<rparr>"]
                maxAttempts_def loop_body_def Let_def emit_live loop_success)

lemma wire_after_complete:
  "wire (safeEnd (emit (live w) (complete b q rs n))) = w
   \<or> wire (safeEnd (emit (live w) (complete b q rs n))) = w @ [complete b q rs n]"
  using emit_live_complete [of w b q rs n] by (auto simp: safeEnd_live wire_ended)

lemma in_wire_after_complete:
  "ev \<in> set (wire (safeEnd (emit (live w) (complete b q rs n))))
     \<Longrightarrow> ev \<in> set w \<or> ev = complete b q rs n"
  using wire_after_complete [of w b q rs n] by auto

section \<open>A reply that is not JSON, in the server\<close>

lemma correction_cycles_simps:
  "correction_cycles [] = 0"
  "correction_cycles (ev # evs) = (if ev = agent_start Correction then Suc (correction_cycles evs) else correction_cycles evs)"
  "correction_cycles (xs @ ys) = correction_cycles xs + correction_cycles ys"
  by (simp_all add: correction_cycles_def)

lemma executions_simps:
  "executions [] = 0"
  "executions (ev # evs) = (if ev = agent_start Execute then Suc (executions evs) else executions evs)"
  "executions (xs @ ys) = executions xs + executions ys"
  by (simp_all add: executions_def)

lemma loop_body_before_cycle:
  assumes nj: "llm_correctionPlan env n = NotJSON e"
    and inv: "before_cycle n s"
    and go: "attempt s < maxAttempts" "\<not> success s"
  shows "case loop_body env s of
           Inr s' \<Rightarrow> before_cycle n s'
         | Inl (e', c) \<Rightarrow> thrown_at_cycle n e e' c"
proof -
  from inv go obtain w where w: "stream s = live w" "correction_cycles w \<le> n"
      "\<forall>ev \<in> set w. \<not> is_complete ev" "attempt s \<le> n" "correction_cycles w = attempt s"
      "executions w = attempt s"
    unfolding before_cycle_def by auto
  show ?thesis
  proof (cases "attempt s = n")
    case True
    with w nj go show ?thesis
      by (auto simp: loop_body_def Let_def emit_live before_cycle_def thrown_at_cycle_def
                     correction_cycles_simps executions_simps maxAttempts_def live_eq
                     correctionPlanAgent_def
               split: sum.splits)
  next
    case False
    with w have "attempt s < n" by simp
    with w go show ?thesis
      by (auto simp: loop_body_def Let_def emit_live before_cycle_def thrown_at_cycle_def
                     correction_cycles_simps executions_simps maxAttempts_def live_eq
               split: sum.splits)
  qed
qed

lemma loop_before_cycle:
  "llm_correctionPlan env n = NotJSON e \<Longrightarrow> before_cycle n s \<Longrightarrow>
     (case loop env s of
        Inr s' \<Rightarrow> before_cycle n s'
      | Inl (e', c) \<Rightarrow> thrown_at_cycle n e e' c)"
proof (induction env s rule: loop.induct)
  case (1 env s)
  show ?case
  proof (cases "attempt s < maxAttempts \<and> \<not> success s")
    case False
    then show ?thesis
      using "1.prems" by (auto simp: loop.simps [of env s])
  next
    case True
    then have go: "attempt s < maxAttempts" "\<not> success s" by simp_all
    note body = loop_body_before_cycle [OF "1.prems"(1) "1.prems"(2) go]
    show ?thesis
    proof (cases "loop_body env s")
      case (Inl x)
      with True body show ?thesis
        by (simp add: loop.simps [of env s])
    next
      case (Inr s')
      with body have "before_cycle n s'"
        by simp
      with "1.IH" [OF True Inr "1.prems"(1)]
      have "case loop env s' of Inr s'' \<Rightarrow> before_cycle n s'' | Inl (e', c) \<Rightarrow> thrown_at_cycle n e e' c"
        by simp
      with True Inr show ?thesis
        by (simp add: loop.simps [of env s])
    qed
  qed
qed

lemma loop_before_cycle_Inr:
  "llm_correctionPlan env n = NotJSON e \<Longrightarrow> before_cycle n s \<Longrightarrow> loop env s = Inr s'
     \<Longrightarrow> before_cycle n s'"
  using loop_before_cycle [of env n e s] by simp

lemma loop_before_cycle_Inl:
  "llm_correctionPlan env n = NotJSON e \<Longrightarrow> before_cycle n s \<Longrightarrow> loop env s = Inl (e', c)
     \<Longrightarrow> thrown_at_cycle n e e' c"
  using loop_before_cycle [of env n e s] by simp

lemma correction_plan_notjson:
  assumes nj: "llm_correctionPlan env n = NotJSON e"
    and more: "n < correction_cycles (events_of (handler env req))"
  shows "\<exists>pre. events_of (handler env req) = pre @ [agent_start Correction, error (message e)]
               \<and> correction_cycles pre = n \<and> executions pre = Suc n
               \<and> (\<forall>ev \<in> set pre. \<not> is_complete ev)"
proof -
  have start: "\<And>o1 o2 o3 q. before_cycle n
      \<lparr>sqlWithSchema = q, success = False, attempt = 0, results = [],
        stream = live [agent_start Schema, agent_complete Schema o1, agent_start Subproblem,
                       agent_complete Subproblem o2, agent_start Queryplan,
                       agent_complete Queryplan o3, agent_start Sql, agent_complete Sql q]\<rparr>"
    by (simp add: before_cycle_def live_eq correction_cycles_simps executions_simps)
  have fin: "\<And>s b q rows k. before_cycle n s \<Longrightarrow>
      correction_cycles (wire (safeEnd (emit (stream s) (complete b q rows k)))) \<le> n"
  proof -
    fix s b q rows k
    assume "before_cycle n s"
    then obtain w where w: "stream s = live w" "correction_cycles w \<le> n"
      unfolding before_cycle_def by auto
    with wire_after_complete [of w b q rows k]
    show "correction_cycles (wire (safeEnd (emit (stream s) (complete b q rows k)))) \<le> n"
      by (auto simp: correction_cycles_simps)
  qed
  have thrown: "\<And>e' c. thrown_at_cycle n e e' c \<Longrightarrow>
      n < correction_cycles (wire (safeEnd (write_error c e'))) \<Longrightarrow>
      \<exists>pre. wire (safeEnd (write_error c e')) = pre @ [agent_start Correction, error (message e)]
            \<and> correction_cycles pre = n \<and> executions pre = Suc n
            \<and> (\<forall>ev \<in> set pre. \<not> is_complete ev)"
    by (auto simp: thrown_at_cycle_def write_error_live safeEnd_live wire_ended
                   correction_cycles_simps)
  have shape: "case pipeline env new_conn of
      Inr c \<Rightarrow> correction_cycles (wire c) \<le> n
    | Inl (e', c) \<Rightarrow> thrown_at_cycle n e e' c"
    unfolding pipeline_def Let_def new_conn_live
    by (auto simp: emit_live thrown_at_cycle_def live_eq correction_cycles_simps fin
             split: sum.split
             dest!: loop_before_cycle_Inr [OF nj start] loop_before_cycle_Inl [OF nj start])
  show ?thesis
  proof (cases "missing (apiKey req) \<or> missing (question req)")
    case True
    then have "events_of (handler env req) = []"
      by (auto simp: handler_def)
    with more show ?thesis
      by (simp add: correction_cycles_simps)
  next
    case False
    show ?thesis
    proof (cases "pipeline env new_conn")
      case (Inr c)
      with False shape more show ?thesis
        by (simp add: handler_def)
    next
      case (Inl x)
      obtain e' c where x: "x = (e', c)" by (cases x)
      with Inl shape have t: "thrown_at_cycle n e e' c" by simp
      from Inl x False have evs: "events_of (handler env req) = wire (safeEnd (write_error c e'))"
        by (simp add: handler_def)
      with more thrown [OF t] show ?thesis
        by simp
    qed
  qed
qed

lemma subproblem_notjson:
  assumes nj: "llm_subproblem env = NotJSON e"
    and reached: "agent_start Subproblem \<in> set (events_of (handler env req))"
  shows "\<exists>out. events_of (handler env req)
           = [agent_start Schema, agent_complete Schema out, agent_start Subproblem,
              error (message e)]"
  using nj reached
  by (auto simp: handler_def pipeline_def Let_def stream_eval subproblemAgent_def
                 schema_output_def
           split: sum.splits if_splits)

lemma queryplan_notjson:
  assumes nj: "llm_queryPlan env = NotJSON e"
    and reached: "agent_start Queryplan \<in> set (events_of (handler env req))"
  shows "\<exists>out1 out2. events_of (handler env req)
           = [agent_start Schema, agent_complete Schema out1, agent_start Subproblem,
              agent_complete Subproblem out2, agent_start Queryplan, error (message e)]"
  using nj reached
  by (auto simp: handler_def pipeline_def Let_def stream_eval queryPlanAgent_def
                 subproblem_output_def
           split: sum.splits if_splits)

section \<open>A reply that is not JSON, in the command-line pipeline\<close>

lemma cli_subproblem_notjson:
  assumes "cli_getSchema env = Inr u" "cli_schemaLinkingAgent env = Inr ls"
    and "tables_join ls = Inr ts" "cli_subproblem env = NotJSON e"
  shows "sqlOfThought env p
           = [AgentBanner A_SchemaLinking, AgentBanner A_Subproblem, PipelineError e]"
  using assms by (simp add: sqlOfThought_def cli_subproblemAgent_def)

lemma read_property_again: "read_property v = Inr w \<Longrightarrow> read_property w = Inr w"
  by (cases v) auto

lemma cli_queryplan_notjson:
  assumes "cli_getSchema env = Inr u" "cli_schemaLinkingAgent env = Inr ls"
    and "tables_join ls = Inr ts" "cli_subproblemAgent env ls = Inr sp"
    and "cli_queryPlan env = NotJSON e"
  shows "sqlOfThought env p
           = [AgentBanner A_SchemaLinking, AgentBanner A_Subproblem, AgentBanner A_QueryPlan,
              PipelineError e]"
  using assms
  by (auto simp: sqlOfThought_def cli_queryPlanAgent_def cli_subproblemAgent_def
           split: sum.splits dest: read_property_again)

lemma cli_loop_console:
  "case cli_loop env p s of
     Inl (e, l) \<Rightarrow> \<exists>t. l = console s @ t
   | Inr s' \<Rightarrow> \<exists>t. console s' = console s @ t"
proof (induction env p s rule: cli_loop.induct)
  case (1 env p s)
  show ?case
  proof (cases "cli_attempt s \<le> MAX_CORRECTION_ATTEMPTS \<and> \<not> cli_success s")
    case False
    then show ?thesis
      by (auto simp: cli_loop.simps [of env p s])
  next
    case True
    show ?thesis
    proof (cases "cli_loop_body env p s")
      case (Inl x)
      then have "\<exists>t. snd x = console s @ t"
        by (auto simp: cli_loop_body_def Let_def split: sum.splits if_splits)
      with True Inl show ?thesis
        by (cases x) (simp add: cli_loop.simps [of env p s])
    next
      case (Inr s')
      then have step: "\<exists>t. console s' = console s @ t"
        by (auto simp: cli_loop_body_def Let_def split: sum.splits if_splits)
      from "1.IH" [OF True Inr] step True Inr show ?thesis
        by (auto simp: cli_loop.simps [of env p s] split: sum.splits)
    qed
  qed
qed

lemma cli_loop_console_Inl: "cli_loop env p s = Inl (e, l) \<Longrightarrow> \<exists>t. l = console s @ t"
  using cli_loop_console [where env = env and p = p and s = s] by simp

lemma cli_loop_console_Inr: "cli_loop env p s = Inr s' \<Longrightarrow> \<exists>t. console s' = console s @ t"
  using cli_loop_console [where env = env and p = p and s = s] by simp

lemma cli_subproblem_nocontent:
  assumes "cli_getSchema env = Inr u" "cli_schemaLinkingAgent env = Inr ls"
    and "tables_join ls = Inr ts" "cli_subproblem env = NoContent"
  shows "cli_subproblemAgent env ls = Inr emptyObject
         \<and> (\<exists>rest. sqlOfThought env p
               = [AgentBanner A_SchemaLinking, AgentBanner A_Subproblem, AgentBanner A_QueryPlan]
                 @ rest)"
proof -
  have agent: "cli_subproblemAgent env ls = Inr emptyObject"
    using assms by (simp add: cli_subproblemAgent_def emptyObject_def)
  have "\<exists>rest. sqlOfThought env p
               = [AgentBanner A_SchemaLinking, AgentBanner A_Subproblem, AgentBanner A_QueryPlan]
                 @ rest"
    using assms agent
    by (auto simp: sqlOfThought_def Let_def split: sum.splits
             dest!: cli_loop_console_Inl cli_loop_console_Inr)
  with agent show ?thesis by simp
qed

lemma cli_queryplan_nocontent:
  assumes "cli_getSchema env = Inr u" "cli_schemaLinkingAgent env = Inr ls"
    and "tables_join ls = Inr ts" "cli_subproblemAgent env ls = Inr sp"
    and "cli_queryPlan env = NoContent"
  shows "cli_queryPlanAgent env ls sp = Inr emptyObject
         \<and> (\<exists>rest. sqlOfThought env p
               = [AgentBanner A_SchemaLinking, AgentBanner A_Subproblem, AgentBanner A_QueryPlan,
                  AgentBanner A_SQL] @ rest)"
proof -
  from assms have "read_property sp = Inr sp"
    by (auto simp: cli_subproblemAgent_def split: sum.splits dest: read_property_again)
  with assms have agent: "cli_queryPlanAgent env ls sp = Inr emptyObject"
    by (simp add: cli_queryPlanAgent_def emptyObject_def)
  have "\<exists>rest. sqlOfThought env p
               = [AgentBanner A_SchemaLinking, AgentBanner A_Subproblem, AgentBanner A_QueryPlan,
                  AgentBanner A_SQL] @ rest"
    using assms agent
    by (auto simp: sqlOfThought_def Let_def split: sum.splits
             dest!: cli_loop_console_Inl cli_loop_console_Inr)
  with agent show ?thesis by simp
qed

lemma plan_calls_simps:
  "plan_calls [] = 0"
  "plan_calls (x # l) = (if x = AgentBanner A_CorrectionPlan then Suc (plan_calls l) else plan_calls l)"
  "plan_calls (l @ l') = plan_calls l + plan_calls l'"
  by (simp_all add: plan_calls_def)

lemma sql_calls_simps:
  "sql_calls [] = 0"
  "sql_calls (x # l) = (if x = AgentBanner A_CorrectionSQL then Suc (sql_calls l) else sql_calls l)"
  "sql_calls (l @ l') = sql_calls l + sql_calls l'"
  by (simp_all add: sql_calls_def)

lemma cli_loop_body_counted:
  assumes inv: "cli_counted env s"
    and go: "cli_attempt s \<le> MAX_CORRECTION_ATTEMPTS" "\<not> cli_success s"
  shows "case cli_loop_body env p s of
           Inr s' \<Rightarrow> cli_counted env s'
         | Inl (e, l) \<Rightarrow> cli_thrown env e l"
proof -
  from inv go have c: "plan_calls (console s) = cli_attempt s" "sql_calls (console s) = cli_attempt s"
      "\<forall>k < cli_attempt s. \<exists>v. cli_correctionPlanAgent env k = Inr v"
    unfolding cli_counted_def by auto
  show ?thesis
  proof (cases "out_success (fst (executeSQL (cli_db env (cli_attempt s)) (generatedSQL s) p))")
    case True
    with c go show ?thesis
      by (auto simp: cli_loop_body_def Let_def cli_counted_def cli_thrown_def
                     plan_calls_simps sql_calls_simps split: sum.splits)
  next
    case False
    show ?thesis
    proof (cases "cli_attempt s < MAX_CORRECTION_ATTEMPTS")
      case last: False
      with False c go show ?thesis
        by (simp add: cli_loop_body_def Let_def cli_counted_def plan_calls_simps sql_calls_simps)
    next
      case more: True
      show ?thesis
      proof (cases "cli_correctionPlanAgent env (cli_attempt s)")
        case (Inl e)
        have "cli_thrown env e (console s @ [ExecutingSQL] @ [AgentBanner A_CorrectionPlan])"
          unfolding cli_thrown_def
          using c Inl by (auto simp: plan_calls_simps sql_calls_simps)
        with False more Inl show ?thesis
          by (simp add: cli_loop_body_def Let_def)
      next
        case (Inr v)
        with c have all: "\<forall>k < Suc (cli_attempt s). \<exists>v. cli_correctionPlanAgent env k = Inr v"
          by (auto simp: less_Suc_eq)
        with False more Inr c show ?thesis
          by (auto simp: cli_loop_body_def Let_def cli_counted_def cli_thrown_def
                         plan_calls_simps sql_calls_simps split: sum.splits)
      qed
    qed
  qed
qed

lemma cli_loop_counted:
  "cli_counted env s \<Longrightarrow>
     (case cli_loop env p s of
        Inr s' \<Rightarrow> cli_counted env s'
      | Inl (e, l) \<Rightarrow> cli_thrown env e l)"
proof (induction env p s rule: cli_loop.induct)
  case (1 env p s)
  show ?case
  proof (cases "cli_attempt s \<le> MAX_CORRECTION_ATTEMPTS \<and> \<not> cli_success s")
    case False
    then show ?thesis
      using "1.prems" by (auto simp: cli_loop.simps [of env p s])
  next
    case True
    then have go: "cli_attempt s \<le> MAX_CORRECTION_ATTEMPTS" "\<not> cli_success s" by simp_all
    note body = cli_loop_body_counted [OF "1.prems" go, of p]
    show ?thesis
    proof (cases "cli_loop_body env p s")
      case (Inl x)
      with True body show ?thesis
        by (simp add: cli_loop.simps [of env p s])
    next
      case (Inr s')
      with body have "cli_counted env s'"
        by simp
      with "1.IH" [OF True Inr]
      have "case cli_loop env p s' of Inr s'' \<Rightarrow> cli_counted env s'' | Inl (e, l) \<Rightarrow> cli_thrown env e l"
        by simp
      with True Inr show ?thesis
        by (simp add: cli_loop.simps [of env p s])
    qed
  qed
qed

lemma cli_loop_counted_Inr: "cli_counted env s \<Longrightarrow> cli_loop env p s = Inr s' \<Longrightarrow> cli_counted env s'"
  using cli_loop_counted [of env s p] by simp

lemma cli_loop_counted_Inl: "cli_counted env s \<Longrightarrow> cli_loop env p s = Inl (e, l) \<Longrightarrow> cli_thrown env e l"
  using cli_loop_counted [of env s p] by simp

lemma sqlOfThought_counted:
  "(\<exists>e l. sqlOfThought env p = l @ [PipelineError e] \<and> cli_thrown env e l)
   \<or> (\<exists>s. sqlOfThought env p = console s @ [Finished (cli_success s)] \<and> cli_counted env s)"
proof -
  have start: "\<And>q. cli_counted env
      \<lparr>generatedSQL = q, cli_attempt = 0, cli_success = False,
        console = [AgentBanner A_SchemaLinking, AgentBanner A_Subproblem,
                   AgentBanner A_QueryPlan, AgentBanner A_SQL]\<rparr>"
    by (simp add: cli_counted_def plan_calls_simps sql_calls_simps)
  have early: "\<And>e. cli_thrown env e []"
      "\<And>e. cli_thrown env e [AgentBanner A_SchemaLinking]"
      "\<And>e. cli_thrown env e [AgentBanner A_SchemaLinking, AgentBanner A_Subproblem]"
      "\<And>e. cli_thrown env e [AgentBanner A_SchemaLinking, AgentBanner A_Subproblem,
                               AgentBanner A_QueryPlan]"
      "\<And>e. cli_thrown env e [AgentBanner A_SchemaLinking, AgentBanner A_Subproblem,
                               AgentBanner A_QueryPlan, AgentBanner A_SQL]"
    by (simp_all add: cli_thrown_def plan_calls_simps sql_calls_simps)
  show ?thesis
  proof (cases "cli_getSchema env")
    case (Inl e)
    with early(1) [of e] show ?thesis
      by (auto simp: sqlOfThought_def)
  next
    case schema: (Inr u)
    show ?thesis
    proof (cases "cli_schemaLinkingAgent env")
      case (Inl e)
      with schema early(2) [of e] show ?thesis
        by (auto simp: sqlOfThought_def)
    next
      case ls: (Inr ls)
      show ?thesis
      proof (cases "cli_subproblemAgent env ls")
        case (Inl e)
        with schema ls early(3) [of e] show ?thesis
          by (auto simp: sqlOfThought_def)
      next
        case sp: (Inr sp)
        show ?thesis
        proof (cases "cli_queryPlanAgent env ls sp")
          case (Inl e)
          with schema ls sp early(4) [of e] show ?thesis
            by (auto simp: sqlOfThought_def)
        next
          case qp: (Inr qp)
          show ?thesis
          proof (cases "cli_sqlGenerationAgent env")
            case (Inl e)
            with schema ls sp qp early(5) [of e] show ?thesis
              by (auto simp: sqlOfThought_def)
          next
            case sql: (Inr q)
            let ?s0 = "\<lparr>generatedSQL = q, cli_attempt = 0, cli_success = False,
                         console = [AgentBanner A_SchemaLinking, AgentBanner A_Subproblem,
                                    AgentBanner A_QueryPlan, AgentBanner A_SQL]\<rparr>"
            show ?thesis
            proof (cases "cli_loop env p ?s0")
              case (Inl x)
              obtain e l where x: "x = (e, l)" by (cases x)
              with Inl cli_loop_counted_Inl [OF start] have "cli_thrown env e l" by simp
              with schema ls sp qp sql Inl x show ?thesis
                by (auto simp: sqlOfThought_def)
            next
              case (Inr s)
              with cli_loop_counted_Inr [OF start] have "cli_counted env s" by simp
              with schema ls sp qp sql Inr show ?thesis
                by (auto simp: sqlOfThought_def)
            qed
          qed
        qed
      qed
    qed
  qed
qed

lemma cli_correction_notjson:
  assumes nj: "cli_correctionPlan env n = NotJSON e"
    and more: "n < plan_calls (sqlOfThought env p)"
  shows "\<exists>pre. sqlOfThought env p = pre @ [AgentBanner A_CorrectionPlan, PipelineError e]
               \<and> plan_calls pre = n \<and> sql_calls pre = n"
proof -
  from nj have agent: "cli_correctionPlanAgent env n = Inl e"
    by (simp add: cli_correctionPlanAgent_def)
  from sqlOfThought_counted [of env p] show ?thesis
  proof (elim disjE exE conjE)
    fix e' l
    assume run: "sqlOfThought env p = l @ [PipelineError e']" and t: "cli_thrown env e' l"
    from t show ?thesis
      unfolding cli_thrown_def
    proof (elim disjE exE conjE)
      assume "plan_calls l = sql_calls l"
        and all: "\<forall>k < plan_calls l. \<exists>v. cli_correctionPlanAgent env k = Inr v"
      from more run have "n < plan_calls l"
        by (simp add: plan_calls_simps)
      with all agent show ?thesis by auto
    next
      fix pre
      assume l: "l = pre @ [AgentBanner A_CorrectionPlan]"
        and eq: "sql_calls pre = plan_calls pre"
        and thrown: "cli_correctionPlanAgent env (plan_calls pre) = Inl e'"
        and all: "\<forall>k < plan_calls pre. \<exists>v. cli_correctionPlanAgent env k = Inr v"
      from more run l have "n \<le> plan_calls pre"
        by (simp add: plan_calls_simps)
      moreover from all agent have "\<not> n < plan_calls pre" by auto
      ultimately have n: "plan_calls pre = n" by simp
      with thrown agent have "e' = e" by simp
      with run l n eq show ?thesis by simp
    qed
  next
    fix s
    assume run: "sqlOfThought env p = console s @ [Finished (cli_success s)]"
      and c: "cli_counted env s"
    from more run have "n < plan_calls (console s)"
      by (simp add: plan_calls_simps)
    with c agent show ?thesis
      unfolding cli_counted_def by auto
  qed
qed

lemma cli_correction_nocontent:
  assumes nc: "cli_correctionPlan env n = NoContent"
    and more: "n < plan_calls (sqlOfThought env p)"
  shows "cli_correctionPlanAgent env n = Inr emptyObject
         \<and> n < sql_calls (sqlOfThought env p)"
proof -
  from nc have agent: "cli_correctionPlanAgent env n = Inr emptyObject"
    by (simp add: cli_correctionPlanAgent_def emptyObject_def)
  from sqlOfThought_counted [of env p] have "n < sql_calls (sqlOfThought env p)"
  proof (elim disjE exE conjE)
    fix e' l
    assume run: "sqlOfThought env p = l @ [PipelineError e']" and t: "cli_thrown env e' l"
    from t show ?thesis
      unfolding cli_thrown_def
    proof (elim disjE exE conjE)
      assume "plan_calls l = sql_calls l"
      with more run show ?thesis
        by (simp add: plan_calls_simps sql_calls_simps)
    next
      fix pre
      assume l: "l = pre @ [AgentBanner A_CorrectionPlan]"
        and eq: "sql_calls pre = plan_calls pre"
        and thrown: "cli_correctionPlanAgent env (plan_calls pre) = Inl e'"
      from more run l have "n \<le> plan_calls pre"
        by (simp add: plan_calls_simps)
      moreover from thrown agent have "plan_calls pre \<noteq> n" by auto
      ultimately have "n < plan_calls pre" by simp
      with run l eq show ?thesis
        by (simp add: sql_calls_simps)
    qed
  next
    fix s
    assume run: "sqlOfThought env p = console s @ [Finished (cli_success s)]"
      and c: "cli_counted env s"
    from more run have "n < plan_calls (console s)"
      by (simp add: plan_calls_simps)
    with c run show ?thesis
      unfolding cli_counted_def by (simp add: sql_calls_simps)
  qed
  with agent show ?thesis by simp
qed

section \<open>The final event of a run\<close>

lemma loop_body_counted:
  assumes inv: "counted_state s"
    and go: "attempt s < maxAttempts" "\<not> success s"
  shows "case loop_body env s of
           Inr s' \<Rightarrow> counted_state s'
         | Inl (e, c) \<Rightarrow> no_complete c"
proof -
  from inv go obtain w where w: "stream s = live w" "\<forall>ev \<in> set w. \<not> is_complete ev"
      "correction_cycles w = min (attempt s) (maxAttempts - 1)" "executions w = attempt s"
    unfolding counted_state_def by auto
  show ?thesis
    using w go
    by (auto simp: loop_body_def Let_def emit_live counted_state_def no_complete_def
                   correction_cycles_simps executions_simps maxAttempts_def live_eq
             split: sum.splits)
qed

lemma loop_counted:
  "counted_state s \<Longrightarrow>
     (case loop env s of
        Inr s' \<Rightarrow> counted_state s' \<and> (success s' \<or> attempt s' = maxAttempts)
      | Inl (e, c) \<Rightarrow> no_complete c)"
proof (induction env s rule: loop.induct)
  case (1 env s)
  show ?case
  proof (cases "attempt s < maxAttempts \<and> \<not> success s")
    case False
    then show ?thesis
      using "1.prems" by (auto simp: loop.simps [of env s] counted_state_def)
  next
    case True
    then have go: "attempt s < maxAttempts" "\<not> success s" by simp_all
    note body = loop_body_counted [OF "1.prems" go, of env]
    show ?thesis
    proof (cases "loop_body env s")
      case (Inl x)
      with True body show ?thesis
        by (simp add: loop.simps [of env s])
    next
      case (Inr s')
      with body have "counted_state s'"
        by simp
      with "1.IH" [OF True Inr]
      have "case loop env s' of
              Inr s'' \<Rightarrow> counted_state s'' \<and> (success s'' \<or> attempt s'' = maxAttempts)
            | Inl (e, c) \<Rightarrow> no_complete c"
        by simp
      with True Inr show ?thesis
        by (simp add: loop.simps [of env s])
    qed
  qed
qed

lemma loop_counted_Inr:
  "counted_state s \<Longrightarrow> loop env s = Inr s'
     \<Longrightarrow> counted_state s' \<and> (success s' \<or> attempt s' = maxAttempts)"
  using loop_counted [of s env] by simp

lemma loop_counted_Inl: "counted_state s \<Longrightarrow> loop env s = Inl (e, c) \<Longrightarrow> no_complete c"
  using loop_counted [of s env] by simp

lemma pipeline_counted:
  "case pipeline env new_conn of
     Inl (e, c) \<Rightarrow> no_complete c
   | Inr c \<Rightarrow>
       (\<exists>s g. sqlGenerationAgent env = Inr g \<and> counted_state s
              \<and> (success s \<or> attempt s = maxAttempts)
              \<and> c = safeEnd (emit (stream s)
                       (complete (success s) g (results s) (Suc (attempt s)))))"
proof -
  have start: "\<And>o1 o2 o3 q. counted_state
      \<lparr>sqlWithSchema = q, success = False, attempt = 0, results = [],
        stream = live [agent_start Schema, agent_complete Schema o1, agent_start Subproblem,
                       agent_complete Subproblem o2, agent_start Queryplan,
                       agent_complete Queryplan o3, agent_start Sql, agent_complete Sql q]\<rparr>"
    by (simp add: counted_state_def live_eq correction_cycles_simps executions_simps)
  show ?thesis
    unfolding pipeline_def Let_def new_conn_live
    by (auto simp: emit_live no_complete_def live_eq
             split: sum.split
             dest!: loop_counted_Inr [OF start] loop_counted_Inl [OF start])
qed

lemma complete_event_counts:
  assumes c: "complete b q rows n \<in> set (events_of (handler env req))"
  shows "sqlGenerationAgent env = Inr q
         \<and> (b \<longrightarrow> n = Suc (correction_cycles (events_of (handler env req))) \<and> n \<le> 3
                  \<and> executions (events_of (handler env req)) = n)
         \<and> (\<not> b \<longrightarrow> n = 4 \<and> correction_cycles (events_of (handler env req)) = 2
                  \<and> executions (events_of (handler env req)) = 3)"
proof (cases "missing (apiKey req) \<or> missing (question req)")
  case True
  then have "events_of (handler env req) = []"
    by (auto simp: handler_def)
  with c show ?thesis by simp
next
  case False
  show ?thesis
  proof (cases "pipeline env new_conn")
    case (Inl x)
    obtain e cn where x: "x = (e, cn)" by (cases x)
    with Inl pipeline_counted [of env] have "no_complete cn" by simp
    then obtain w where w: "cn = live w" "\<forall>ev \<in> set w. \<not> is_complete ev"
      unfolding no_complete_def by auto
    from Inl x False w have "events_of (handler env req) = w @ [error (message e)]"
      by (simp add: handler_def write_error_live safeEnd_live wire_ended)
    with c w show ?thesis
      by (auto dest!: bspec [where x = "complete b q rows n"])
  next
    case (Inr cn)
    with pipeline_counted [of env] obtain s g where
      g: "sqlGenerationAgent env = Inr g" and inv: "counted_state s"
      and fin: "success s \<or> attempt s = maxAttempts"
      and cn: "cn = safeEnd (emit (stream s) (complete (success s) g (results s) (Suc (attempt s))))"
      by auto
    from inv obtain w where w: "stream s = live w" "\<forall>ev \<in> set w. \<not> is_complete ev"
        "success s \<longrightarrow> attempt s < maxAttempts"
        "correction_cycles w = min (attempt s) (maxAttempts - 1)"
        "executions w = attempt s + (if success s then 1 else 0)"
      unfolding counted_state_def by auto
    let ?c = "complete (success s) g (results s) (Suc (attempt s))"
    from Inr False cn w have evs: "events_of (handler env req) = wire (safeEnd (emit (live w) ?c))"
      by (simp add: handler_def)
    from wire_after_complete [of w "success s" g "results s" "Suc (attempt s)"]
    have "wire (safeEnd (emit (live w) ?c)) = w \<or> wire (safeEnd (emit (live w) ?c)) = w @ [?c]"
      by simp
    then show ?thesis
    proof
      assume "wire (safeEnd (emit (live w) ?c)) = w"
      with c evs w show ?thesis
        by (auto dest!: bspec [where x = "complete b q rows n"])
    next
      assume e: "wire (safeEnd (emit (live w) ?c)) = w @ [?c]"
      with c evs w have eq: "complete b q rows n = ?c"
        by (auto dest!: bspec [where x = "complete b q rows n"])
      with g fin w evs e show ?thesis
        by (auto simp: correction_cycles_simps executions_simps maxAttempts_def)
    qed
  qed
qed

section \<open>Input that the cleaning empties, and a query that is rewritten once\<close>

lemma replace_all_Lit_first:
  assumes "\<forall>c \<in> set s. c \<noteq> x"
  shows "replace_all (Lit (x # l) # re) f s = s"
  using assms
proof (induction s)
  case Nil
  show ?case
    by (simp add: replace_all.simps [of _ _ "[]"] startsWith_def)
next
  case (Cons c s)
  then show ?case
    by (simp add: replace_all.simps [of _ _ "c # s"] startsWith_def)
qed

lemma trim_whitespace:
  assumes "\<forall>c \<in> set s. isWhiteSpace c"
  shows "trim s = []"
  using assms by (auto simp: trim_def dest: set_dropWhileD)

lemma cleanSQL_whitespace:
  assumes "\<forall>c \<in> set s. isWhiteSpace c"
  shows "cleanSQL s = []"
proof -
  have dash: "\<not> isWhiteSpace 45" and slash: "\<not> isWhiteSpace 47"
    by (simp_all add: isWhiteSpace_def isLineTerminator_def)
  from assms dash have d: "\<forall>c \<in> set s. c \<noteq> 45" by auto
  from assms slash have sl: "\<forall>c \<in> set s. c \<noteq> 47" by auto
  have l: "str ''--'' = 45 # [45]" and b: "str ''/*'' = 47 # [42]"
    by (simp_all add: str_def)
  show ?thesis
    unfolding cleanSQL_def re_line_comment_def re_block_comment_def l b
    by (simp add: replace_all_Lit_first [OF d] replace_all_Lit_first [OF sl] trim_whitespace [OF assms])
qed

lemma executeSQL_whitespace:
  assumes "\<forall>c \<in> set sql. isWhiteSpace c"
  shows "executeSQL env sql dbPath
       = (\<lparr>out_success = False, out_result = None,
           out_error = Some (str ''Empty SQL query after cleaning''),
           out_row_count = None, out_execution_time_ms = None\<rparr>, [])"
  by (simp add: executeSQL_def Let_def cleanSQL_whitespace [OF assms])

lemma addSchemaPrefix_plain_twice:
  "addSchemaPrefix (str ''SELECT * FROM customers c JOIN invoices i ON 1'')
     = str ''SELECT * FROM chinook.customers c JOIN chinook.invoices i ON 1''
   \<and> addSchemaPrefix (str ''SELECT * FROM chinook.customers c JOIN chinook.invoices i ON 1'')
     = str ''SELECT * FROM chinook.customers c JOIN chinook.invoices i ON 1''"
  by (simp add: rewrite_eval regex_eval)

section \<open>Values of a row\<close>




section \<open>The rows of the final event\<close>












section \<open>The variables of the two loops\<close>

lemma loop_pass:
  "(db_all env (attempt s) (sqlWithSchema s) = Inr rows \<longrightarrow>
      (\<exists>s'. loop_body env s = Inr s' \<and> success s' \<and> attempt s' = attempt s
            \<and> sqlWithSchema s' = sqlWithSchema s \<and> loop env s' = Inr s'))
   \<and> (db_all env (attempt s) (sqlWithSchema s) = Inl err \<and> attempt s < maxAttempts - 1
        \<and> loop_body env s = Inr s' \<longrightarrow>
      (\<exists>t. correctionSQLAgent env (attempt s) = Inr t \<and> sqlWithSchema s' = addSchemaPrefix t)
      \<and> attempt s' = attempt s + 1 \<and> success s' = success s)
   \<and> (db_all env (attempt s) (sqlWithSchema s) = Inl err \<and> \<not> attempt s < maxAttempts - 1 \<longrightarrow>
      (\<exists>s'. loop_body env s = Inr s' \<and> sqlWithSchema s' = sqlWithSchema s
            \<and> attempt s' = attempt s + 1 \<and> success s' = success s))
   \<and> (success s \<longrightarrow> loop env s = Inr s)"
  by (auto simp: loop_body_def Let_def loop_success split: sum.splits)

lemma cli_loop_pass:
  assumes result: "result = fst (executeSQL (cli_db env (cli_attempt s)) (generatedSQL s) p)"
  shows "(out_success result \<and> show_rows (out_result result) = Inr () \<longrightarrow>
      (\<exists>s'. cli_loop_body env p s = Inr s' \<and> cli_success s' \<and> cli_attempt s' = cli_attempt s
            \<and> generatedSQL s' = generatedSQL s \<and> cli_loop env p s' = Inr s'))
   \<and> (\<not> out_success result \<and> cli_attempt s < MAX_CORRECTION_ATTEMPTS
        \<and> cli_loop_body env p s = Inr s' \<longrightarrow>
      cli_correctionSQLAgent env (cli_attempt s) = Inr (generatedSQL s')
      \<and> cli_attempt s' = cli_attempt s + 1 \<and> cli_success s' = cli_success s)
   \<and> (\<not> out_success result \<and> \<not> cli_attempt s < MAX_CORRECTION_ATTEMPTS \<longrightarrow>
      (\<exists>s'. cli_loop_body env p s = Inr s' \<and> generatedSQL s' = generatedSQL s
            \<and> cli_attempt s' = cli_attempt s + 1 \<and> cli_success s' = cli_success s))
   \<and> (cli_success s \<longrightarrow> cli_loop env p s = Inr s)"
  unfolding result
  by (auto simp: cli_loop_body_def Let_def cli_loop_success split: sum.splits)


section \<open>Evaluation of the command-line pipeline\<close>

lemma cli_stripFences_select_n:
  "cli_stripFences (str ''SELECT n FROM t'') = str ''SELECT n FROM t''"
  by (simp add: cli_stripFences_def fence_eval regex_eval)

lemmas cli_eval = sqlOfThought_def cli_schemaLinkingAgent_def cli_subproblemAgent_def
  cli_queryPlanAgent_def cli_sqlGenerationAgent_def cli_correctionPlanAgent_def
  cli_correctionSQLAgent_def emptyObject_def cli_loop.simps cli_loop_body_def Let_def
  MAX_CORRECTION_ATTEMPTS_def executeSQL_def show_rows_def convert_row_def obj_set_def
  cleanSQL_select_n cli_stripFences_select_n str_eq_iff str_Nil_iff

lemmas cli_sample_env = cli_env_ok_def cli_env_fail_def db_bigint_def db_failing_def
  cli_env_subproblem_notjson_def cli_env_subproblem_nocontent_def
  cli_env_queryplan_notjson_def cli_env_queryplan_nocontent_def
  cli_env_correction_notjson_def cli_env_correction_nocontent_def


section \<open>The attempt count of the final event\<close>

text \<open>
  C1 (the \<open>complete\<close> event reports \<open>attempts\<close> = 1 + the number of correction cycles run,
  never more than 3; when all three executions fail it has \<open>success: false\<close> and
  \<open>attempts: 3\<close>). The code does not do this when every execution fails. The loop adds
  one to \<open>attempt\<close> after the third failure as after the first two, leaves with
  \<open>attempt = 3\<close>, and the event carries \<open>attempt + 1\<close>. In this run the database rejects
  every query: three executions, two correction cycles, the text
  \<open>Failed after 3 attempts\<close> sent to the client, and then \<open>attempts: 4\<close>. (By
  \<open>complete_event_counts\<close> every run that ends without success reports 4, and every run
  that ends in success reports one more than its correction cycles, at most 3.)
\<close>

theorem all_attempts_fail_reports_four:
  "last (events_of (handler env_fail req0)) = complete False (str ''SELECT x FROM t'') [] 4
   \<and> correction_cycles (events_of (handler env_fail req0)) = 2
   \<and> executions (events_of (handler env_fail req0)) = 3
   \<and> agent_complete Correction (str ''Failed after 3 attempts. Final error: no x'')
       \<in> set (events_of (handler env_fail req0))"
  by (simp add: sample_env run_eval agent_eval stream_eval sample_sql
        correction_cycles_def executions_def or_else_def)

section \<open>Schema qualification applied twice\<close>

text \<open>
  C2 (the rewrite is idempotent, with no \<open>chinook.chinook.table\<close> left). The code does
  not have this property. The patterns of the server have no word boundary: in a query
  whose column alias ends in \<open>from\<close>, the first pass takes the keyword \<open>FROM\<close> for the
  table name, and the second pass then prefixes the table as well. The server collapses
  one doubled prefix per pass: a reference with three prefixes comes out with two, and
  a second pass changes it again. The tool's rewrite has no guard at all: it turns an
  unqualified reference into a qualified one, and a qualified one into a doubly
  qualified one.
\<close>

theorem schema_prefix_twice_differs:
  "addSchemaPrefix (str ''SELECT a AS date_from FROM t'')
     = str ''SELECT a AS date_FROM chinook.FROM t''
   \<and> addSchemaPrefix (addSchemaPrefix (str ''SELECT a AS date_from FROM t''))
     = str ''SELECT a AS date_FROM chinook.FROM chinook.t''
   \<and> addSchemaPrefix (str ''SELECT * FROM chinook.chinook.chinook.customers'')
     = str ''SELECT * FROM chinook.chinook.customers''
   \<and> addSchemaPrefix (addSchemaPrefix (str ''SELECT * FROM chinook.chinook.chinook.customers''))
     = str ''SELECT * FROM chinook.customers''
   \<and> prefixSchemaTool (str ''SELECT * FROM customers'')
     = str ''SELECT * FROM chinook.customers''
   \<and> prefixSchemaTool (prefixSchemaTool (str ''SELECT * FROM customers''))
     = str ''SELECT * FROM chinook.chinook.customers''"
  by (simp add: rewrite_eval regex_eval)

section \<open>The query text of the final event\<close>

text \<open>
  C3 (after a successful run the \<open>complete\<close> event carries the query that was executed
  successfully, schema-qualified and possibly corrected). The event carries
  \<open>generatedSQL\<close>, the first reply of the SQL agent, which the server never assigns again;
  the query that runs is \<open>sqlWithSchema\<close>. In this run the generated query fails, the
  corrected one succeeds on the second execution and is shown by an \<open>agent_update\<close>,
  and the final event still names the generated query, which the database rejected.
\<close>

theorem complete_carries_generated_sql:
  "last (events_of (handler env_retry req0))
     = complete True (str ''SELECT x FROM t'') [[(str ''y'', JNumber 1)]] 2
   \<and> agent_update Sql (str ''Corrected SQL (Attempt 2):'' @ [10] @ str ''SELECT y FROM chinook.t'')
       \<in> set (events_of (handler env_retry req0))
   \<and> db_all env_retry 0 (str ''SELECT x FROM chinook.t'') = Inl (Error (str ''no x''))
   \<and> db_all env_retry 1 (str ''SELECT y FROM chinook.t'') = Inr [[(str ''y'', JNumber 1)]]"
  by (simp add: sample_env run_eval agent_eval stream_eval sample_sql or_else_def)

section \<open>A reply that is not JSON\<close>

text \<open>
  C4, as the specification states it (a reply of the subproblem, query-plan or
  correction stage that does not parse is taken as an empty structure and the later
  stages go on), fails on the code: \<open>JSON.parse\<close> throws, nothing catches the error
  before the handler's outer \<open>catch\<close>, and the run ends with the \<open>error\<close> event. Here the
  subproblem reply is not JSON; the query-plan stage never starts.
\<close>

theorem subproblem_parse_failure_ends_run:
  "events_of (handler env_subproblem_notjson req0)
     = [agent_start Schema, agent_complete Schema (str ''Tables: t''),
        agent_start Subproblem, error (str ''Unexpected token'')]"
  by (simp add: sample_env run_eval agent_eval stream_eval sample_sql)

text \<open>
  C4, amended. A reply that is a text on which \<open>JSON.parse\<close> throws is taken as an
  empty structure nowhere: when the reply of the subproblem, query-plan or
  correction-plan stage is such a text and the run reaches the call, the run ends
  there. In the server the events end with the \<open>agent_start\<close> of that stage and the
  \<open>error\<close> event carrying the parser's message: nothing else comes after the start of
  the stage, so no later stage starts, no further execution is made and no \<open>complete\<close>
  event is sent. In the command-line pipeline the console ends with the banner of that
  agent and \<open>Pipeline error\<close> with the parser's error. The handler and \<open>sqlOfThought\<close>
  return in every case.

  The one default is that of the command-line pipeline for a reply without content:
  it is read as the empty object, the agent returns it, and the next agent is called
  (the query-plan agent after the subproblem agent, the SQL agent after the query-plan
  agent, the correction SQL agent of the same cycle after the correction-plan agent).

  The subproblem and query-plan calls of the server are reached when the \<open>agent_start\<close>
  of the stage is sent; those of the command-line pipeline when the schema is loaded,
  the stages before have returned and \<open>linkedSchema.tables.join\<close> does not throw; the
  correction-plan call of cycle \<open>n\<close> when more than \<open>n\<close> correction cycles begin.
\<close>

theorem parse_failure_is_terminal:
  assumes evs: "evs = events_of (handler env req)"
    and log: "log = sqlOfThought cenv dbPath"
  shows "(llm_subproblem env = NotJSON e \<and> agent_start Subproblem \<in> set evs \<longrightarrow>
            (\<exists>out. evs = [agent_start Schema, agent_complete Schema out,
                           agent_start Subproblem, error (message e)]))
         \<and> (llm_queryPlan env = NotJSON e \<and> agent_start Queryplan \<in> set evs \<longrightarrow>
            (\<exists>out1 out2. evs = [agent_start Schema, agent_complete Schema out1,
                                 agent_start Subproblem, agent_complete Subproblem out2,
                                 agent_start Queryplan, error (message e)]))
         \<and> (llm_correctionPlan env n = NotJSON e \<and> n < correction_cycles evs \<longrightarrow>
            (\<exists>pre. evs = pre @ [agent_start Correction, error (message e)]
                   \<and> correction_cycles pre = n \<and> executions pre = Suc n
                   \<and> (\<forall>ev \<in> set pre. \<not> is_complete ev)))
         \<and> (cli_getSchema cenv = Inr () \<and> cli_schemaLinkingAgent cenv = Inr ls
              \<and> tables_join ls = Inr ts \<longrightarrow>
            (cli_subproblem cenv = NotJSON e \<longrightarrow>
               log = [AgentBanner A_SchemaLinking, AgentBanner A_Subproblem, PipelineError e])
            \<and> (cli_subproblem cenv = NoContent \<longrightarrow>
               cli_subproblemAgent cenv ls = Inr emptyObject
               \<and> (\<exists>rest. log = [AgentBanner A_SchemaLinking, AgentBanner A_Subproblem,
                                 AgentBanner A_QueryPlan] @ rest))
            \<and> (cli_subproblemAgent cenv ls = Inr sp \<and> cli_queryPlan cenv = NotJSON e \<longrightarrow>
               log = [AgentBanner A_SchemaLinking, AgentBanner A_Subproblem,
                      AgentBanner A_QueryPlan, PipelineError e])
            \<and> (cli_subproblemAgent cenv ls = Inr sp \<and> cli_queryPlan cenv = NoContent \<longrightarrow>
               cli_queryPlanAgent cenv ls sp = Inr emptyObject
               \<and> (\<exists>rest. log = [AgentBanner A_SchemaLinking, AgentBanner A_Subproblem,
                                 AgentBanner A_QueryPlan, AgentBanner A_SQL] @ rest)))
         \<and> (cli_correctionPlan cenv n = NotJSON e \<and> n < plan_calls log \<longrightarrow>
            (\<exists>pre. log = pre @ [AgentBanner A_CorrectionPlan, PipelineError e]
                   \<and> plan_calls pre = n \<and> sql_calls pre = n))
         \<and> (cli_correctionPlan cenv n = NoContent \<and> n < plan_calls log \<longrightarrow>
            cli_correctionPlanAgent cenv n = Inr emptyObject \<and> n < sql_calls log)"
proof -
  have s1: "llm_subproblem env = NotJSON e \<and> agent_start Subproblem \<in> set evs \<longrightarrow>
            (\<exists>out. evs = [agent_start Schema, agent_complete Schema out,
                           agent_start Subproblem, error (message e)])"
    using subproblem_notjson [of env e req] unfolding evs by blast
  have s2: "llm_queryPlan env = NotJSON e \<and> agent_start Queryplan \<in> set evs \<longrightarrow>
            (\<exists>out1 out2. evs = [agent_start Schema, agent_complete Schema out1,
                                 agent_start Subproblem, agent_complete Subproblem out2,
                                 agent_start Queryplan, error (message e)])"
    using queryplan_notjson [of env e req] unfolding evs by blast
  have s3: "llm_correctionPlan env n = NotJSON e \<and> n < correction_cycles evs \<longrightarrow>
            (\<exists>pre. evs = pre @ [agent_start Correction, error (message e)]
                   \<and> correction_cycles pre = n \<and> executions pre = Suc n
                   \<and> (\<forall>ev \<in> set pre. \<not> is_complete ev))"
    using correction_plan_notjson [of env n e req] unfolding evs by blast
  have c1: "cli_getSchema cenv = Inr () \<and> cli_schemaLinkingAgent cenv = Inr ls
              \<and> tables_join ls = Inr ts \<longrightarrow>
            (cli_subproblem cenv = NotJSON e \<longrightarrow>
               log = [AgentBanner A_SchemaLinking, AgentBanner A_Subproblem, PipelineError e])
            \<and> (cli_subproblem cenv = NoContent \<longrightarrow>
               cli_subproblemAgent cenv ls = Inr emptyObject
               \<and> (\<exists>rest. log = [AgentBanner A_SchemaLinking, AgentBanner A_Subproblem,
                                 AgentBanner A_QueryPlan] @ rest))
            \<and> (cli_subproblemAgent cenv ls = Inr sp \<and> cli_queryPlan cenv = NotJSON e \<longrightarrow>
               log = [AgentBanner A_SchemaLinking, AgentBanner A_Subproblem,
                      AgentBanner A_QueryPlan, PipelineError e])
            \<and> (cli_subproblemAgent cenv ls = Inr sp \<and> cli_queryPlan cenv = NoContent \<longrightarrow>
               cli_queryPlanAgent cenv ls sp = Inr emptyObject
               \<and> (\<exists>rest. log = [AgentBanner A_SchemaLinking, AgentBanner A_Subproblem,
                                 AgentBanner A_QueryPlan, AgentBanner A_SQL] @ rest))"
    using cli_subproblem_notjson [of cenv "()" ls ts e dbPath]
      cli_subproblem_nocontent [of cenv "()" ls ts dbPath]
      cli_queryplan_notjson [of cenv "()" ls ts sp e dbPath]
      cli_queryplan_nocontent [of cenv "()" ls ts sp dbPath]
    unfolding log by blast
  have c2: "cli_correctionPlan cenv n = NotJSON e \<and> n < plan_calls log \<longrightarrow>
            (\<exists>pre. log = pre @ [AgentBanner A_CorrectionPlan, PipelineError e]
                   \<and> plan_calls pre = n \<and> sql_calls pre = n)"
    using cli_correction_notjson [of cenv n e dbPath] unfolding log by blast
  have c3: "cli_correctionPlan cenv n = NoContent \<and> n < plan_calls log \<longrightarrow>
            cli_correctionPlanAgent cenv n = Inr emptyObject \<and> n < sql_calls log"
    using cli_correction_nocontent [of cenv n dbPath] unfolding log by blast
  from s1 s2 s3 c1 c2 c3 show ?thesis
    by (intro conjI)
qed

theorem parse_failure_is_terminal_witness:
  "(llm_subproblem env_subproblem_notjson = NotJSON (Error (str ''Unexpected token''))
    \<and> agent_start Subproblem \<in> set (events_of (handler env_subproblem_notjson req0))
    \<and> length (events_of (handler env_subproblem_notjson req0)) = 4
    \<and> last (events_of (handler env_subproblem_notjson req0)) = error (str ''Unexpected token''))
   \<and> (llm_queryPlan env_queryplan_notjson = NotJSON (Error (str ''Unexpected token''))
    \<and> agent_start Queryplan \<in> set (events_of (handler env_queryplan_notjson req0))
    \<and> length (events_of (handler env_queryplan_notjson req0)) = 6
    \<and> last (events_of (handler env_queryplan_notjson req0)) = error (str ''Unexpected token''))
   \<and> (llm_correctionPlan env_correction_notjson 0 = NotJSON (Error (str ''Unexpected token''))
    \<and> 0 < correction_cycles (events_of (handler env_correction_notjson req0))
    \<and> last (events_of (handler env_correction_notjson req0)) = error (str ''Unexpected token'')
    \<and> correction_cycles (events_of (handler env_correction_notjson req0)) = 1
    \<and> executions (events_of (handler env_correction_notjson req0)) = 1)
   \<and> (cli_getSchema cli_env_ok = Inr ()
    \<and> cli_schemaLinkingAgent cli_env_ok = Inr (JsonValue (Inr [str ''t'']))
    \<and> tables_join (JsonValue (Inr [str ''t''])) = Inr [str ''t'']
    \<and> cli_subproblem cli_env_subproblem_notjson = NotJSON (Error (str ''Unexpected token''))
    \<and> sqlOfThought cli_env_subproblem_notjson (str ''p'')
        = [AgentBanner A_SchemaLinking, AgentBanner A_Subproblem,
           PipelineError (Error (str ''Unexpected token''))])
   \<and> (cli_subproblem cli_env_subproblem_nocontent = NoContent
    \<and> take 3 (sqlOfThought cli_env_subproblem_nocontent (str ''p''))
        = [AgentBanner A_SchemaLinking, AgentBanner A_Subproblem, AgentBanner A_QueryPlan])
   \<and> (cli_subproblemAgent cli_env_queryplan_notjson (JsonValue (Inr [str ''t'']))
        = Inr (JsonValue (Inr []))
    \<and> cli_queryPlan cli_env_queryplan_notjson = NotJSON (Error (str ''Unexpected token''))
    \<and> sqlOfThought cli_env_queryplan_notjson (str ''p'')
        = [AgentBanner A_SchemaLinking, AgentBanner A_Subproblem, AgentBanner A_QueryPlan,
           PipelineError (Error (str ''Unexpected token''))])
   \<and> (cli_queryPlan cli_env_queryplan_nocontent = NoContent
    \<and> take 4 (sqlOfThought cli_env_queryplan_nocontent (str ''p''))
        = [AgentBanner A_SchemaLinking, AgentBanner A_Subproblem, AgentBanner A_QueryPlan,
           AgentBanner A_SQL])
   \<and> (cli_correctionPlan cli_env_correction_notjson 0 = NotJSON (Error (str ''Unexpected token''))
    \<and> 0 < plan_calls (sqlOfThought cli_env_correction_notjson (str ''p''))
    \<and> last (sqlOfThought cli_env_correction_notjson (str ''p''))
        = PipelineError (Error (str ''Unexpected token''))
    \<and> sql_calls (sqlOfThought cli_env_correction_notjson (str ''p'')) = 0)
   \<and> (cli_correctionPlan cli_env_correction_nocontent 0 = NoContent
    \<and> 0 < plan_calls (sqlOfThought cli_env_correction_nocontent (str ''p''))
    \<and> 0 < sql_calls (sqlOfThought cli_env_correction_nocontent (str ''p'')))"
proof -
  let ?e = "Error (str ''Unexpected token'')"
  let ?ls = "JsonValue (Inr [str ''t''])"
  let ?sp = "JsonValue (Inr [])"
  note T = parse_failure_is_terminal [OF refl refl]
  have a1: "llm_subproblem env_subproblem_notjson = NotJSON ?e"
    by (simp add: sample_env)
  have a2: "agent_start Subproblem \<in> set (events_of (handler env_subproblem_notjson req0))"
    by (simp add: sample_env run_eval agent_eval stream_eval sample_sql)
  from a1 a2 T [where env = env_subproblem_notjson and req = req0 and e = "?e",
       THEN conjunct1]
  have a: "length (events_of (handler env_subproblem_notjson req0)) = 4
      \<and> last (events_of (handler env_subproblem_notjson req0)) = error (str ''Unexpected token'')"
    by auto
  have b1: "llm_queryPlan env_queryplan_notjson = NotJSON ?e"
    by (simp add: sample_env)
  have b2: "agent_start Queryplan \<in> set (events_of (handler env_queryplan_notjson req0))"
    by (simp add: sample_env run_eval agent_eval stream_eval sample_sql)
  from b1 b2 T [where env = env_queryplan_notjson and req = req0 and e = "?e",
       THEN conjunct2, THEN conjunct1]
  have b: "length (events_of (handler env_queryplan_notjson req0)) = 6
      \<and> last (events_of (handler env_queryplan_notjson req0)) = error (str ''Unexpected token'')"
    by auto
  have c1: "llm_correctionPlan env_correction_notjson 0 = NotJSON ?e"
    by (simp add: sample_env)
  have c2: "0 < correction_cycles (events_of (handler env_correction_notjson req0))"
    by (simp add: sample_env run_eval agent_eval stream_eval sample_sql correction_cycles_def)
  from c1 c2 T [where env = env_correction_notjson and req = req0 and e = "?e" and n = 0,
       THEN conjunct2, THEN conjunct2, THEN conjunct1]
  have c: "last (events_of (handler env_correction_notjson req0)) = error (str ''Unexpected token'')
      \<and> correction_cycles (events_of (handler env_correction_notjson req0)) = 1
      \<and> executions (events_of (handler env_correction_notjson req0)) = 1"
    by (auto simp: correction_cycles_simps executions_simps)
  have g: "cli_getSchema cli_env_ok = Inr ()"
      "cli_getSchema cli_env_subproblem_notjson = Inr ()"
      "cli_getSchema cli_env_subproblem_nocontent = Inr ()"
      "cli_getSchema cli_env_queryplan_notjson = Inr ()"
      "cli_getSchema cli_env_queryplan_nocontent = Inr ()"
    by (simp_all add: cli_sample_env)
  have l: "cli_schemaLinkingAgent cli_env_ok = Inr ?ls"
      "cli_schemaLinkingAgent cli_env_subproblem_notjson = Inr ?ls"
      "cli_schemaLinkingAgent cli_env_subproblem_nocontent = Inr ?ls"
      "cli_schemaLinkingAgent cli_env_queryplan_notjson = Inr ?ls"
      "cli_schemaLinkingAgent cli_env_queryplan_nocontent = Inr ?ls"
    by (simp_all add: cli_sample_env cli_schemaLinkingAgent_def)
  have t: "tables_join ?ls = Inr [str ''t'']"
    by simp
  have d1: "cli_subproblem cli_env_subproblem_notjson = NotJSON ?e"
    by (simp add: cli_sample_env)
  from g(2) l(2) t d1
    T [where cenv = cli_env_subproblem_notjson and dbPath = "str ''p''" and e = "?e"
        and ls = "?ls" and ts = "[str ''t'']" and sp = "?sp",
       THEN conjunct2, THEN conjunct2, THEN conjunct2, THEN conjunct1]
  have d: "sqlOfThought cli_env_subproblem_notjson (str ''p'')
        = [AgentBanner A_SchemaLinking, AgentBanner A_Subproblem, PipelineError ?e]"
    by blast
  have e1: "cli_subproblem cli_env_subproblem_nocontent = NoContent"
    by (simp add: cli_sample_env)
  from g(3) l(3) t e1
    T [where cenv = cli_env_subproblem_nocontent and dbPath = "str ''p''"
        and ls = "?ls" and ts = "[str ''t'']" and e = "?e" and sp = "?sp",
       THEN conjunct2, THEN conjunct2, THEN conjunct2, THEN conjunct1]
  have e: "take 3 (sqlOfThought cli_env_subproblem_nocontent (str ''p''))
        = [AgentBanner A_SchemaLinking, AgentBanner A_Subproblem, AgentBanner A_QueryPlan]"
    by auto
  have f0: "cli_subproblemAgent cli_env_queryplan_notjson ?ls = Inr ?sp"
      "cli_subproblemAgent cli_env_queryplan_nocontent ?ls = Inr ?sp"
    by (simp_all add: cli_sample_env cli_subproblemAgent_def)
  have f1: "cli_queryPlan cli_env_queryplan_notjson = NotJSON ?e"
    by (simp add: cli_sample_env)
  from g(4) l(4) t f0(1) f1
    T [where cenv = cli_env_queryplan_notjson and dbPath = "str ''p''" and e = "?e"
        and ls = "?ls" and ts = "[str ''t'']" and sp = "?sp",
       THEN conjunct2, THEN conjunct2, THEN conjunct2, THEN conjunct1]
  have f: "sqlOfThought cli_env_queryplan_notjson (str ''p'')
        = [AgentBanner A_SchemaLinking, AgentBanner A_Subproblem, AgentBanner A_QueryPlan,
           PipelineError ?e]"
    by blast
  have h1: "cli_queryPlan cli_env_queryplan_nocontent = NoContent"
    by (simp add: cli_sample_env)
  from g(5) l(5) t f0(2) h1
    T [where cenv = cli_env_queryplan_nocontent and dbPath = "str ''p''"
        and ls = "?ls" and ts = "[str ''t'']" and sp = "?sp" and e = "?e",
       THEN conjunct2, THEN conjunct2, THEN conjunct2, THEN conjunct1]
  have h: "take 4 (sqlOfThought cli_env_queryplan_nocontent (str ''p''))
        = [AgentBanner A_SchemaLinking, AgentBanner A_Subproblem, AgentBanner A_QueryPlan,
           AgentBanner A_SQL]"
    by auto
  have i1: "cli_correctionPlan cli_env_correction_notjson 0 = NotJSON ?e"
    by (simp add: cli_sample_env)
  have i2: "0 < plan_calls (sqlOfThought cli_env_correction_notjson (str ''p''))"
    by (simp add: cli_sample_env cli_eval plan_calls_def)
  from i1 i2
    T [where cenv = cli_env_correction_notjson and dbPath = "str ''p''" and e = "?e" and n = 0,
       THEN conjunct2, THEN conjunct2, THEN conjunct2, THEN conjunct2, THEN conjunct1]
  have i: "last (sqlOfThought cli_env_correction_notjson (str ''p'')) = PipelineError ?e
      \<and> sql_calls (sqlOfThought cli_env_correction_notjson (str ''p'')) = 0"
    by (auto simp: sql_calls_simps)
  have j1: "cli_correctionPlan cli_env_correction_nocontent 0 = NoContent"
    by (simp add: cli_sample_env)
  have j2: "0 < plan_calls (sqlOfThought cli_env_correction_nocontent (str ''p''))"
    by (simp add: cli_sample_env cli_eval plan_calls_def)
  from j1 j2
    T [where cenv = cli_env_correction_nocontent and dbPath = "str ''p''" and n = 0,
       THEN conjunct2, THEN conjunct2, THEN conjunct2, THEN conjunct2, THEN conjunct2]
  have j: "0 < sql_calls (sqlOfThought cli_env_correction_nocontent (str ''p''))"
    by blast
  from a1 a2 a b1 b2 b c1 c2 c g(1) l(1) t d1 d e1 e f0(1) f1 f h1 h i1 i2 i j1 j2 j
  show ?thesis
    by (intro conjI) simp_all
qed

section \<open>64-bit integers in result rows\<close>




section \<open>No correction after a first success\<close>

text \<open>
  C6: when the first execution of the query succeeds, no event of the run names the
  agent \<open>correction\<close>, whatever its type. The first query is the schema-qualified reply of
  the SQL agent.
\<close>

theorem no_correction_after_first_success:
  assumes gen: "sqlGenerationAgent env = Inr generated"
    and run: "db_all env 0 (addSchemaPrefix generated) = Inr rows"
  shows "\<forall>ev \<in> set (events_of (handler env req)). agent_of ev \<noteq> Some Correction"
  using gen
  by (auto simp: handler_def pipeline_def Let_def stream_eval loop_first_success [OF run]
           split: sum.split dest!: in_wire_after_complete)

theorem no_correction_after_first_success_witness:
  "sqlGenerationAgent env_ok = Inr (str ''SELECT y FROM t'')
   \<and> db_all env_ok 0 (addSchemaPrefix (str ''SELECT y FROM t''))
       = Inr [[(str ''y'', JBigInt 9007199254740993)]]
   \<and> agent_complete Execute (str ''1 rows returned'') \<in> set (events_of (handler env_ok req0))
   \<and> filter (\<lambda>ev. agent_of ev = Some Correction) (events_of (handler env_ok req0)) = []"
proof -
  have gen: "sqlGenerationAgent env_ok = Inr (str ''SELECT y FROM t'')"
    by (simp add: sample_env agent_eval sample_sql)
  have run: "db_all env_ok 0 (addSchemaPrefix (str ''SELECT y FROM t''))
       = Inr [[(str ''y'', JBigInt 9007199254740993)]]"
    by (simp add: sample_env)
  have ev: "agent_complete Execute (str ''1 rows returned'') \<in> set (events_of (handler env_ok req0))"
    by (simp add: sample_env run_eval agent_eval stream_eval sample_sql or_else_def)
  from no_correction_after_first_success [OF gen run, of req0]
  have "filter (\<lambda>ev. agent_of ev = Some Correction) (events_of (handler env_ok req0)) = []"
    by (simp add: filter_empty_conv)
  with gen run ev show ?thesis by blast
qed

section \<open>Start before complete\<close>

text \<open>
  C7: in the events of every run, each \<open>agent_complete\<close> and each \<open>agent_error\<close> of an
  agent comes after an \<open>agent_start\<close> of the same agent. (The \<open>agent_complete\<close> of
  \<open>correction\<close> that reports the final failure has no \<open>agent_start\<close> of its own; it comes
  after those of the two correction cycles before it.)
\<close>

theorem start_before_complete: "start_precedes (events_of (handler env req))"
proof -
  have "\<And>e c. ordered_conn c \<Longrightarrow> start_precedes (wire (safeEnd (write_error c e)))"
    by (auto simp: ordered_conn_def write_error_live safeEnd_live wire_ended start_precedes_snoc)
  with pipeline_ordered [of env] show ?thesis
    by (auto simp: handler_def start_precedes_Nil split: sum.splits)
qed

theorem start_before_complete_witness:
  "agent_complete Correction (str ''Failed after 3 attempts. Final error: no x'')
     \<in> set (events_of (handler env_fail req0))
   \<and> ordered_from [] (events_of (handler env_fail req0))"
proof -
  have "agent_complete Correction (str ''Failed after 3 attempts. Final error: no x'')
     \<in> set (events_of (handler env_fail req0))"
    by (simp add: sample_env run_eval agent_eval stream_eval sample_sql or_else_def)
  with start_before_complete [of env_fail req0] show ?thesis
    by (simp add: start_precedes_eval)
qed

section \<open>The query of the loop and the query of the final event\<close>

text \<open>
  C8 (at most one generated query is live at a time, each correction replacing the
  prior query entirely; the counter strictly increases; once \<open>success\<close> is set the loop
  ends). The two loops keep their own variables as the claim says (\<open>loop_pass\<close>,
  \<open>cli_loop_pass\<close>: a successful pass ends the loop with the counter and the query
  unchanged; a failed pass adds one to the counter and, when a correction cycle runs,
  replaces the query of the loop by the corrected one). But the server holds the query
  in two variables: a correction replaces \<open>sqlWithSchema\<close> and never \<open>generatedSQL\<close>,
  which stays live beside it and is what the \<open>complete\<close> event reports. In this run the
  first query fails and the correction replaces the query of the loop; the run ends in
  success with the corrected query in the loop state and the replaced one in the final
  event. The command-line pipeline has the one variable \<open>generatedSQL\<close>, which a
  correction assigns.
\<close>

theorem corrected_query_beside_generated:
  "sqlGenerationAgent env_retry = Inr (str ''SELECT x FROM t'')
   \<and> sqlWithSchema first_try = addSchemaPrefix (str ''SELECT x FROM t'')
   \<and> loop_body env_retry first_try = Inr second_try
   \<and> sqlWithSchema second_try = str ''SELECT y FROM chinook.t''
   \<and> (\<exists>s. loop env_retry second_try = Inr s \<and> success s
           \<and> sqlWithSchema s = str ''SELECT y FROM chinook.t'')
   \<and> last (events_of (handler env_retry req0))
       = complete True (str ''SELECT x FROM t'') [[(str ''y'', JNumber 1)]] 2"
proof -
  have gen: "sqlGenerationAgent env_retry = Inr (str ''SELECT x FROM t'')"
    by (simp add: sample_env agent_eval sample_sql)
  have q0: "sqlWithSchema first_try = addSchemaPrefix (str ''SELECT x FROM t'')"
    by (simp add: first_try_def sample_sql)
  have b1: "loop_body env_retry first_try = Inr second_try"
    by (simp add: first_try_def second_try_def sample_env loop_body_def Let_def maxAttempts_def
          agent_eval stream_eval sample_sql or_else_def)
  have q1: "sqlWithSchema second_try = str ''SELECT y FROM chinook.t''"
    by (simp add: second_try_def)
  have l2: "\<exists>s. loop env_retry second_try = Inr s \<and> success s
           \<and> sqlWithSchema s = str ''SELECT y FROM chinook.t''"
    by (simp add: second_try_def sample_env run_eval stream_eval sample_sql)
  have fin: "last (events_of (handler env_retry req0))
       = complete True (str ''SELECT x FROM t'') [[(str ''y'', JNumber 1)]] 2"
    by (simp add: sample_env run_eval agent_eval stream_eval sample_sql or_else_def)
  from gen q0 b1 q1 l2 fin show ?thesis
    by (intro conjI)
qed

section \<open>Emitting after the stream is closed\<close>

text \<open>
  C9: on a stream that has ended or whose client has gone, \<open>emit\<close> and the write of the
  \<open>error\<close> event change nothing and return (an exception of \<open>res.write\<close> is caught);
  \<open>safeEnd\<close> writes nothing, sets the flag and returns, and a second \<open>safeEnd\<close> does
  nothing; after \<open>safeEnd\<close>, after the \<open>close\<close> callback and after the client has gone,
  \<open>emit\<close> is a no-op; and when the handler has returned, every later \<open>emit\<close> and
  \<open>safeEnd\<close> on its stream is a no-op.
\<close>

theorem emit_after_close_is_noop:
  "(responseEnded c \<or> \<not> writable c \<longrightarrow>
      emit c ev = c \<and> write_error c err = c
      \<and> wire (safeEnd c) = wire c \<and> responseEnded (safeEnd c))
   \<and> safeEnd (safeEnd c) = safeEnd c
   \<and> emit (safeEnd c) ev = safeEnd c
   \<and> emit (on_close c) ev = on_close c
   \<and> emit (client_disconnect c) ev = client_disconnect c
   \<and> (handler env req = Stream c \<longrightarrow> emit c ev = c \<and> safeEnd c = c)"
proof -
  have ended: "\<And>c. responseEnded (safeEnd c)"
    by (simp add: safeEnd_def res_end_def Let_def)
  have closed: "responseEnded c \<or> \<not> writable c \<longrightarrow>
      emit c ev = c \<and> write_error c err = c
      \<and> wire (safeEnd c) = wire c \<and> responseEnded (safeEnd c)"
    by (auto simp: emit_def write_error_def safeEnd_def res_write_def res_end_def Let_def
             split: sum.splits)
  have twice: "safeEnd (safeEnd c) = safeEnd c"
    using ended [of c] by (simp add: safeEnd_def [of "safeEnd c"])
  have after_end: "emit (safeEnd c) ev = safeEnd c"
    using ended [of c] by (simp add: emit_def)
  have after_close: "emit (on_close c) ev = on_close c"
    by (simp add: emit_def on_close_def)
  have after_gone: "emit (client_disconnect c) ev = client_disconnect c"
    by (simp add: emit_def client_disconnect_def res_write_def split: sum.splits)
  have run: "handler env req = Stream c \<longrightarrow> emit c ev = c \<and> safeEnd c = c"
  proof
    assume h: "handler env req = Stream c"
    have "responseEnded c"
    proof (cases "pipeline env new_conn")
      case (Inl x)
      with h ended show ?thesis
        by (cases x) (auto simp: handler_def split: if_splits)
    next
      case (Inr c')
      with h have "c' = c"
        by (auto simp: handler_def split: if_splits)
      with Inr ended show ?thesis
        by (auto simp: pipeline_def Let_def split: sum.splits)
    qed
    then show "emit c ev = c \<and> safeEnd c = c"
      by (simp add: emit_def safeEnd_def)
  qed
  from closed twice after_end after_close after_gone run show ?thesis
    by blast
qed

theorem emit_after_close_is_noop_witness:
  "\<not> writable (client_disconnect new_conn)
   \<and> emit (client_disconnect new_conn) (agent_start Schema) = client_disconnect new_conn
   \<and> wire (safeEnd (safeEnd (client_disconnect new_conn))) = []
   \<and> handler env_ok req0 = Stream (ended (events_of (handler env_ok req0)))
   \<and> emit (ended (events_of (handler env_ok req0))) (error (str ''late''))
       = ended (events_of (handler env_ok req0))"
proof -
  have gone: "\<not> writable (client_disconnect new_conn)"
    by (simp add: client_disconnect_def)
  have h: "handler env_ok req0 = Stream (ended (events_of (handler env_ok req0)))"
    by (simp add: sample_env run_eval agent_eval stream_eval sample_sql or_else_def)
  from gone h
    emit_after_close_is_noop [of "client_disconnect new_conn" "agent_start Schema" "Error []" env_ok req0]
    emit_after_close_is_noop [of "ended (events_of (handler env_ok req0))" "error (str ''late'')" "Error []" env_ok req0]
  show ?thesis
    by (simp add: client_disconnect_def new_conn_def)
qed

section \<open>A query that is only a comment\<close>

text \<open>
  C10 (an input made of comments and white space only is answered with
  \<open>Empty SQL query after cleaning\<close> and the database is not touched). The line-comment
  pattern runs first and does not know about block comments: of the block comment
  \<open>/* -- */\<close> it removes \<open>-- */\<close>, the block-comment pattern then finds no closing
  \<open>*/\<close>, and \<open>/*\<close> is left. The cleaned text is not empty, so the executor goes on to
  the database, whatever the database then answers.
\<close>

theorem executeSQL_block_comment_reaches_database:
  "cleanSQL (str ''/* -- */'') = str ''/*''
   \<and> (\<exists>calls. snd (executeSQL env (str ''/* -- */'') dbPath)
                 = DbAll (str ''INSTALL sqlite; LOAD sqlite;'') # calls)"
proof -
  have nonempty: "str ''/*'' \<noteq> []"
    by (simp add: str_def)
  show ?thesis
    by (simp add: executeSQL_def Let_def cleanSQL_block_with_dashes nonempty
             split: option.split sum.split)
qed

end
